theory Spec2Isabelle
  imports Complex_Main
begin

section \<open>Numbers and values of the source language\<close>

text \<open>
  The program is JavaScript (src/src/App.jsx). Its numbers are modelled as mathematical
  reals: arithmetic is exact, and the special values NaN and Infinity do not exist.
  Where the source produces NaN from a conversion (\<open>Number(s)\<close>, \<open>parseFloat(s)\<close>)
  the model uses \<open>None\<close>. The string-to-number conversions are built into the language,
  not written in this repository, so every function that calls one takes the conversion
  as its first argument; the theorems hold for every such conversion.
\<close>

definition Math_round :: "real \<Rightarrow> real" where
  \<comment> \<open>\<open>Math.round\<close>: the nearest integer, a tie going up.\<close>
  "Math_round x = of_int \<lfloor>x + 1 / 2\<rfloor>"

definition Math_pow :: "real \<Rightarrow> real \<Rightarrow> real" where
  \<comment> \<open>\<open>Math.pow\<close>, used by the source on a positive base only.\<close>
  "Math_pow x y = x powr y"

definition isNaN_js :: "real \<Rightarrow> bool" where
  "isNaN_js x = False"

definition isFinite_js :: "real \<Rightarrow> bool" where
  "isFinite_js x = True"

datatype jsval = JStr string | JNum real

type_synonym to_number = "string \<Rightarrow> real option"

definition Number_or_zero :: "to_number \<Rightarrow> jsval \<Rightarrow> real" where
  \<comment> \<open>\<open>Number(v) || 0\<close>: NaN and 0 both give 0.\<close>
  "Number_or_zero toNumber v =
     (case v of
        JNum r \<Rightarrow> r
      | JStr s \<Rightarrow> (case toNumber s of None \<Rightarrow> 0 | Some r \<Rightarrow> r))"

definition digit_value :: "char \<Rightarrow> nat option" where
  "digit_value = map_of (zip ''0123456789'' [0, 1, 2, 3, 4, 5, 6, 7, 8, 9])"

fun digits_value :: "nat \<Rightarrow> string \<Rightarrow> nat option" where
  "digits_value acc [] = Some acc"
| "digits_value acc (c # cs) =
     (case digit_value c of None \<Rightarrow> None | Some v \<Rightarrow> digits_value (10 * acc + v) cs)"

definition decimal_literal :: to_number where
  \<comment> \<open>A conversion to run the model on concrete journals. On a plain literal \<open>ddd\<close> or
      \<open>ddd.ddd\<close> (what a number input and \<open>toFixed\<close> produce) it is the value that
      \<open>Number\<close> and \<open>parseFloat\<close> give; every other string is not a number here.\<close>
  "decimal_literal s =
     (let ip = takeWhile (\<lambda>c. c \<noteq> CHR ''.'') s;
          fp = drop (Suc (length ip)) s
      in if ip = [] then None
         else (case (digits_value 0 ip, digits_value 0 fp) of
                 (Some i, Some f) \<Rightarrow> Some (real i + real f / 10 ^ length fp)
               | _ \<Rightarrow> None))"

section \<open>The plan document\<close>

definition DEFAULT_INITIAL_CAPITAL :: real where "DEFAULT_INITIAL_CAPITAL = 50000"
definition DEFAULT_FINAL_TARGET :: real where "DEFAULT_FINAL_TARGET = 1000000"
definition DEFAULT_TENURE_DAYS :: int where "DEFAULT_TENURE_DAYS = 66"

record rule =
  rule_text :: string
  checked :: bool

definition DEFAULT_RULES :: "rule list" where
  \<comment> \<open>Lines 44 to 49.\<close>
  "DEFAULT_RULES =
     [\<lparr>rule_text = ''MAINTAIN DISCIPLINE: ADHERE TO THE PLAN'', checked = False\<rparr>,
      \<lparr>rule_text = ''VALIDATE STRATEGY: CONFIRM ENTRY/EXIT CRITERIA'', checked = False\<rparr>,
      \<lparr>rule_text = ''ASSESS MACRO TREND: CONSULT HIGHER TIMEFRAMES'', checked = False\<rparr>,
      \<lparr>rule_text = ''RISK PROTOCOL: MAX 2% CAPITAL PER ENGAGEMENT'', checked = False\<rparr>]"

record trading_day =
  day :: int
  date :: string
  capital :: real
  target :: real
  profit :: real
  dailyRate :: real
  achieved :: bool
  pnlSign :: string
  actual :: jsval
  winningTrades :: jsval
  losingTrades :: jsval
  logic :: string
  rules :: "rule list"

record month =
  month_id :: int
  monthName :: string
  days :: "trading_day list"

record plan_document =
  initialCapital :: real
  finalTarget :: real
  tenure :: int
  months :: "month list"
  hiddenSymbols :: "string list"
  version :: int

section \<open>recalculatePlan (App.jsx, lines 164 to 221)\<close>

datatype js_error = TypeError

record goal =
  goal_target :: real
  goal_profit :: real

text \<open>Lines 167 to 170: the validated inputs.\<close>

definition validTenure :: "plan_document \<Rightarrow> int" where
  "validTenure fullData =
     (if tenure fullData > 0 then tenure fullData else DEFAULT_TENURE_DAYS)"

definition validInitialCapital :: "plan_document \<Rightarrow> real" where
  "validInitialCapital fullData =
     (if initialCapital fullData > 0 then initialCapital fullData else DEFAULT_INITIAL_CAPITAL)"

definition validFinalTarget :: "plan_document \<Rightarrow> real" where
  "validFinalTarget fullData =
     (if finalTarget fullData > validInitialCapital fullData then finalTarget fullData
      else validInitialCapital fullData * 2)"

text \<open>Lines 176 and 177: the daily compounding rate and its fallback.\<close>

definition initialDailyRate :: "int \<Rightarrow> real \<Rightarrow> real \<Rightarrow> real" where
  "initialDailyRate vTenure vInitialCapital vFinalTarget =
     (let dailyRate = Math_pow (vFinalTarget / vInitialCapital) (1 / of_int vTenure) - 1
      in if isNaN_js dailyRate \<or> \<not> isFinite_js dailyRate \<or> dailyRate < - (1 / 2)
         then 1 / 100 else dailyRate)"

text \<open>Lines 180 to 187: the ideal plan; the first argument counts the iterations left.\<close>

fun plannedGoals_loop :: "nat \<Rightarrow> real \<Rightarrow> real \<Rightarrow> goal list \<Rightarrow> goal list" where
  "plannedGoals_loop 0 rate plannedCapital plannedGoals = plannedGoals"
| "plannedGoals_loop (Suc n) rate plannedCapital plannedGoals =
     (let plannedTarget = plannedCapital * (1 + rate);
          plannedProfit = plannedTarget - plannedCapital
      in plannedGoals_loop n rate plannedTarget
           (plannedGoals @
              [\<lparr>goal_target = Math_round plannedTarget,
                goal_profit = Math_round plannedProfit\<rparr>]))"

text \<open>Lines 190 to 219: the actual path. The loop variables are a record.\<close>

record walk_state =
  actualCapital :: real
  totalDaysElapsed :: nat
  plannedGoals :: "goal list"

definition signedProfit :: "to_number \<Rightarrow> trading_day \<Rightarrow> real" where
  "signedProfit toNumber d =
     (let actualProfit = Number_or_zero toNumber (actual d)
      in if pnlSign d = ''+'' then actualProfit else - actualProfit)"

definition extend_goals :: "walk_state \<Rightarrow> goal list" where
  \<comment> \<open>Lines 195 to 199: a calendar longer than the ideal plan repeats the last goal.\<close>
  "extend_goals s =
     (if totalDaysElapsed s \<ge> length (plannedGoals s)
      then plannedGoals s @
             [case plannedGoals s of
                [] \<Rightarrow> \<lparr>goal_target = actualCapital s, goal_profit = 0\<rparr>
              | _ # _ \<Rightarrow> last (plannedGoals s)]
      else plannedGoals s)"

definition day_step ::
  "to_number \<Rightarrow> walk_state \<Rightarrow> trading_day \<Rightarrow> js_error + (trading_day \<times> walk_state)" where
  \<comment> \<open>One iteration of the loop of line 193; reading a goal that does not exist throws.\<close>
  "day_step toNumber s d =
     (let goals = extend_goals s;
          n = totalDaysElapsed s;
          a = actualCapital s
      in if n < length goals
         then
           let g = goals ! n;
               d' = d\<lparr>target := goal_target g,
                      profit := goal_profit g,
                      capital := Math_round a,
                      dailyRate :=
                        (if a > 0 \<and> goal_target g > a then goal_target g / a - 1 else 0)\<rparr>;
               a' = (if actual d \<noteq> JStr ''''
                     then a + signedProfit toNumber d
                     else goal_target g)
           in Inr (d', \<lparr>actualCapital = a', totalDaysElapsed = Suc n, plannedGoals = goals\<rparr>)
         else Inl TypeError)"

fun walk_days ::
  "to_number \<Rightarrow> walk_state \<Rightarrow> trading_day list \<Rightarrow> js_error + (trading_day list \<times> walk_state)"
  where
  "walk_days toNumber s [] = Inr ([], s)"
| "walk_days toNumber s (d # ds) =
     (case day_step toNumber s d of
        Inl e \<Rightarrow> Inl e
      | Inr (d', s') \<Rightarrow>
          (case walk_days toNumber s' ds of
             Inl e \<Rightarrow> Inl e
           | Inr (ds', s'') \<Rightarrow> Inr (d' # ds', s'')))"

fun walk_months ::
  "to_number \<Rightarrow> walk_state \<Rightarrow> month list \<Rightarrow> js_error + (month list \<times> walk_state)" where
  "walk_months toNumber s [] = Inr ([], s)"
| "walk_months toNumber s (m # ms) =
     (case walk_days toNumber s (days m) of
        Inl e \<Rightarrow> Inl e
      | Inr (ds', s') \<Rightarrow>
          (case walk_months toNumber s' ms of
             Inl e \<Rightarrow> Inl e
           | Inr (ms', s'') \<Rightarrow> Inr (m\<lparr>days := ds'\<rparr> # ms', s'')))"

definition recalculate_body ::
  "to_number \<Rightarrow> int \<Rightarrow> real \<Rightarrow> real \<Rightarrow> month list \<Rightarrow> js_error + month list" where
  \<comment> \<open>Lines 172 to 220, on the validated inputs. The deep copy of line 172 is the
      identity on values; the ideal plan is built, then the calendar is walked in order.\<close>
  "recalculate_body toNumber vTenure vInitialCapital vFinalTarget newMonths =
     (let rate = initialDailyRate vTenure vInitialCapital vFinalTarget;
          goals = plannedGoals_loop (nat vTenure) rate vInitialCapital []
      in case walk_months toNumber
                \<lparr>actualCapital = vInitialCapital, totalDaysElapsed = 0, plannedGoals = goals\<rparr>
                newMonths of
           Inl e \<Rightarrow> Inl e
         | Inr (ms, _) \<Rightarrow> Inr ms)"

definition recalculatePlan :: "to_number \<Rightarrow> plan_document \<Rightarrow> js_error + month list" where
  "recalculatePlan toNumber fullData =
     recalculate_body toNumber (validTenure fullData) (validInitialCapital fullData)
       (validFinalTarget fullData) (months fullData)"

definition allDays :: "month list \<Rightarrow> trading_day list" where
  \<comment> \<open>Line 173: \<open>newMonths.flatMap(m => m.days)\<close>.\<close>
  "allDays ms = concat (map days ms)"

definition allDays_of :: "js_error + month list \<Rightarrow> trading_day list" where
  \<comment> \<open>The days of a returned calendar, in order.\<close>
  "allDays_of r = (case r of Inl e \<Rightarrow> [] | Inr ms \<Rightarrow> allDays ms)"

section \<open>Notions used to state the properties of the plan\<close>

definition goals_inv :: "walk_state \<Rightarrow> bool" where
  \<comment> \<open>The loop invariant that keeps the read of line 200 in range.\<close>
  "goals_inv s = (totalDaysElapsed s \<le> length (plannedGoals s))"

definition whole :: "real \<Rightarrow> bool" where
  "whole x = (Math_round x = x)"

definition goals_whole :: "walk_state \<Rightarrow> bool" where
  "goals_whole s =
     (plannedGoals s \<noteq> [] \<and> list_all (\<lambda>g. whole (goal_target g)) (plannedGoals s))"

definition initial_state :: "plan_document \<Rightarrow> walk_state" where
  \<comment> \<open>The loop variables when line 193 is reached.\<close>
  "initial_state P =
     \<lparr>actualCapital = validInitialCapital P, totalDaysElapsed = 0,
      plannedGoals =
        plannedGoals_loop (nat (validTenure P))
          (initialDailyRate (validTenure P) (validInitialCapital P) (validFinalTarget P))
          (validInitialCapital P) []\<rparr>"

type_synonym journal_fields =
  "int \<times> string \<times> bool \<times> string \<times> jsval \<times> jsval \<times> jsval \<times> string \<times> rule list"

definition journal :: "trading_day \<Rightarrow> journal_fields" where
  \<comment> \<open>Everything of a day but its four financial fields.\<close>
  "journal d =
     (day d, date d, achieved d, pnlSign d, actual d, winningTrades d, losingTrades d,
      logic d, rules d)"

definition month_frame :: "month \<Rightarrow> int \<times> string \<times> journal_fields list" where
  "month_frame m = (month_id m, monthName m, map journal (days m))"

fun actual_path :: "to_number \<Rightarrow> real \<Rightarrow> trading_day list \<Rightarrow> real list" where
  \<comment> \<open>The running capital before each day, not rounded, read off a calendar.\<close>
  "actual_path toNumber a [] = []"
| "actual_path toNumber a (d # ds) =
     a # actual_path toNumber
           (if actual d \<noteq> JStr '''' then a + signedProfit toNumber d else target d) ds"

definition rate_for :: "real \<Rightarrow> real \<Rightarrow> real" where
  "rate_for a t = (if a > 0 \<and> t > a then t / a - 1 else 0)"

subsection \<open>Concrete journals\<close>

definition blank_day :: "int \<Rightarrow> string \<Rightarrow> bool \<Rightarrow> string \<Rightarrow> string \<Rightarrow> trading_day" where
  \<comment> \<open>A day as generatePlanStructure builds it (lines 137 to 151), then with the
      achieved flag, the sign and the outcome that the journal handlers have set.\<close>
  "blank_day n dt ach sg act =
     \<lparr>day = n, date = dt, capital = 0, target = 0, profit = 0, dailyRate = 0,
      achieved = ach, pnlSign = sg, actual = JStr act, winningTrades = JStr '''',
      losingTrades = JStr '''', logic = '''', rules = DEFAULT_RULES\<rparr>"

definition done_day ::
  "int \<Rightarrow> string \<Rightarrow> bool \<Rightarrow> string \<Rightarrow> string \<Rightarrow> real \<Rightarrow> real \<Rightarrow> real \<Rightarrow> real \<Rightarrow> trading_day"
  where
  "done_day n dt ach sg act c t p r =
     (blank_day n dt ach sg act)\<lparr>capital := c, target := t, profit := p, dailyRate := r\<rparr>"

definition plan_a :: plan_document where
  "plan_a =
     \<lparr>initialCapital = 100, finalTarget = 1600, tenure = 4,
      months = [\<lparr>month_id = 1, monthName = ''November 2025'',
                 days = [blank_day 1 ''2025-11-17'' False ''+'' ''0.375'',
                         blank_day 2 ''2025-11-18'' False ''+'' ''0.375'',
                         blank_day 3 ''2025-11-19'' False ''+'' '''',
                         blank_day 4 ''2025-11-20'' False ''+'' '''']\<rparr>],
      hiddenSymbols = [], version = 2\<rparr>"

definition plan_b :: plan_document where
  "plan_b =
     \<lparr>initialCapital = 100, finalTarget = 400, tenure = 2,
      months = [\<lparr>month_id = 1, monthName = ''November 2025'',
                 days = [blank_day 1 ''2025-11-17'' True ''+'' ''299.625'',
                         blank_day 2 ''2025-11-18'' False ''+'' '''']\<rparr>],
      hiddenSymbols = [], version = 2\<rparr>"

definition plan_c :: plan_document where
  "plan_c =
     \<lparr>initialCapital = 100, finalTarget = 400, tenure = 2,
      months = [\<lparr>month_id = 1, monthName = ''November 2025'',
                 days = [blank_day 1 ''2025-11-17'' True ''+'' ''500'',
                         blank_day 2 ''2025-11-18'' False ''+'' '''']\<rparr>],
      hiddenSymbols = [], version = 2\<rparr>"

subsection \<open>The sanitizing step in the words of the specification\<close>

definition sanitized_tenure :: "int \<Rightarrow> int" where
  "sanitized_tenure t = (if t \<le> 0 then 66 else t)"

definition sanitized_capital :: "real \<Rightarrow> real" where
  "sanitized_capital c = (if c \<le> 0 then 50000 else c)"

definition sanitized_target :: "real \<Rightarrow> real \<Rightarrow> real" where
  "sanitized_target c f = (if f \<le> c then 2 * c else f)"

definition required_rate :: "int \<Rightarrow> real \<Rightarrow> real \<Rightarrow> real" where
  \<comment> \<open>The required daily rate of a valid config: \<open>(finalTarget / initialCapital)\<close> to the
      power \<open>1 / tenure\<close>, minus 1.\<close>
  "required_rate t c f = Math_pow (f / c) (1 / of_int t) - 1"

definition ideal_goal :: "int \<Rightarrow> real \<Rightarrow> real \<Rightarrow> nat \<Rightarrow> goal" where
  \<comment> \<open>The ideal path at day \<open>i\<close>, counted from 0: the capital compounded \<open>i + 1\<close> times at
      rate \<open>r\<close>, rounded, and the rounded gain of that step; past the tenure the last
      entry is repeated.\<close>
  "ideal_goal t c r i =
     (let k = min i (nat t - 1)
      in \<lparr>goal_target = Math_round (c * (1 + r) ^ Suc k),
          goal_profit = Math_round (c * (1 + r) ^ Suc k - c * (1 + r) ^ k)\<rparr>)"

definition ideal_goals :: "int \<Rightarrow> real \<Rightarrow> real \<Rightarrow> walk_state \<Rightarrow> bool" where
  \<comment> \<open>The loop invariant of line 193 that ties the goals held by the loop to the ideal
      path.\<close>
  "ideal_goals t c r s =
     (nat t \<le> length (plannedGoals s) \<and> totalDaysElapsed s \<le> length (plannedGoals s) \<and>
      plannedGoals s = map (ideal_goal t c r) [0..<length (plannedGoals s)])"

definition plan_invalid :: plan_document where
  \<comment> \<open>A stored document whose three config values are all invalid, with a calendar of
      two days and no recorded outcome.\<close>
  "plan_invalid =
     \<lparr>initialCapital = - 100, finalTarget = 10, tenure = 0,
      months = [\<lparr>month_id = 1, monthName = ''November 2025'',
                 days = [blank_day 1 ''2025-11-17'' False ''+'' '''',
                         blank_day 2 ''2025-11-18'' False ''+'' '''']\<rparr>],
      hiddenSymbols = [], version = 2\<rparr>"

subsection \<open>The default plan\<close>

definition plan_default :: plan_document where
  \<comment> \<open>The journal that createNewJournal builds (lines 1549 to 1556): 66 trading days
      from Monday 2025-11-17, weekends skipped, in months of 22.\<close>
  "plan_default =
     \<lparr>initialCapital = 50000, finalTarget = 1000000, tenure = 66,
      months = [\<lparr>month_id = 1, monthName = ''November 2025'',
                 days = [blank_day 1 ''2025-11-17'' False ''+'' '''',
                         blank_day 2 ''2025-11-18'' False ''+'' '''',
                         blank_day 3 ''2025-11-19'' False ''+'' '''',
                         blank_day 4 ''2025-11-20'' False ''+'' '''',
                         blank_day 5 ''2025-11-21'' False ''+'' '''',
                         blank_day 6 ''2025-11-24'' False ''+'' '''',
                         blank_day 7 ''2025-11-25'' False ''+'' '''',
                         blank_day 8 ''2025-11-26'' False ''+'' '''',
                         blank_day 9 ''2025-11-27'' False ''+'' '''',
                         blank_day 10 ''2025-11-28'' False ''+'' '''',
                         blank_day 11 ''2025-12-01'' False ''+'' '''',
                         blank_day 12 ''2025-12-02'' False ''+'' '''',
                         blank_day 13 ''2025-12-03'' False ''+'' '''',
                         blank_day 14 ''2025-12-04'' False ''+'' '''',
                         blank_day 15 ''2025-12-05'' False ''+'' '''',
                         blank_day 16 ''2025-12-08'' False ''+'' '''',
                         blank_day 17 ''2025-12-09'' False ''+'' '''',
                         blank_day 18 ''2025-12-10'' False ''+'' '''',
                         blank_day 19 ''2025-12-11'' False ''+'' '''',
                         blank_day 20 ''2025-12-12'' False ''+'' '''',
                         blank_day 21 ''2025-12-15'' False ''+'' '''',
                         blank_day 22 ''2025-12-16'' False ''+'' '''']\<rparr>,
                \<lparr>month_id = 2, monthName = ''December 2025'',
                 days = [blank_day 23 ''2025-12-17'' False ''+'' '''',
                         blank_day 24 ''2025-12-18'' False ''+'' '''',
                         blank_day 25 ''2025-12-19'' False ''+'' '''',
                         blank_day 26 ''2025-12-22'' False ''+'' '''',
                         blank_day 27 ''2025-12-23'' False ''+'' '''',
                         blank_day 28 ''2025-12-24'' False ''+'' '''',
                         blank_day 29 ''2025-12-25'' False ''+'' '''',
                         blank_day 30 ''2025-12-26'' False ''+'' '''',
                         blank_day 31 ''2025-12-29'' False ''+'' '''',
                         blank_day 32 ''2025-12-30'' False ''+'' '''',
                         blank_day 33 ''2025-12-31'' False ''+'' '''',
                         blank_day 34 ''2026-01-01'' False ''+'' '''',
                         blank_day 35 ''2026-01-02'' False ''+'' '''',
                         blank_day 36 ''2026-01-05'' False ''+'' '''',
                         blank_day 37 ''2026-01-06'' False ''+'' '''',
                         blank_day 38 ''2026-01-07'' False ''+'' '''',
                         blank_day 39 ''2026-01-08'' False ''+'' '''',
                         blank_day 40 ''2026-01-09'' False ''+'' '''',
                         blank_day 41 ''2026-01-12'' False ''+'' '''',
                         blank_day 42 ''2026-01-13'' False ''+'' '''',
                         blank_day 43 ''2026-01-14'' False ''+'' '''',
                         blank_day 44 ''2026-01-15'' False ''+'' '''']\<rparr>,
                \<lparr>month_id = 3, monthName = ''January 2026'',
                 days = [blank_day 45 ''2026-01-16'' False ''+'' '''',
                         blank_day 46 ''2026-01-19'' False ''+'' '''',
                         blank_day 47 ''2026-01-20'' False ''+'' '''',
                         blank_day 48 ''2026-01-21'' False ''+'' '''',
                         blank_day 49 ''2026-01-22'' False ''+'' '''',
                         blank_day 50 ''2026-01-23'' False ''+'' '''',
                         blank_day 51 ''2026-01-26'' False ''+'' '''',
                         blank_day 52 ''2026-01-27'' False ''+'' '''',
                         blank_day 53 ''2026-01-28'' False ''+'' '''',
                         blank_day 54 ''2026-01-29'' False ''+'' '''',
                         blank_day 55 ''2026-01-30'' False ''+'' '''',
                         blank_day 56 ''2026-02-02'' False ''+'' '''',
                         blank_day 57 ''2026-02-03'' False ''+'' '''',
                         blank_day 58 ''2026-02-04'' False ''+'' '''',
                         blank_day 59 ''2026-02-05'' False ''+'' '''',
                         blank_day 60 ''2026-02-06'' False ''+'' '''',
                         blank_day 61 ''2026-02-09'' False ''+'' '''',
                         blank_day 62 ''2026-02-10'' False ''+'' '''',
                         blank_day 63 ''2026-02-11'' False ''+'' '''',
                         blank_day 64 ''2026-02-12'' False ''+'' '''',
                         blank_day 65 ''2026-02-13'' False ''+'' '''',
                         blank_day 66 ''2026-02-16'' False ''+'' '''']\<rparr>],
      hiddenSymbols = [], version = 2\<rparr>"

section \<open>The demo trader (App.jsx, lines 381 to 634)\<close>

text \<open>
  The component state that the handlers read and write is a record; each handler is a
  function from the state to the state. What a handler hands to its collaborators is
  appended to the state as well: the notifications (\<open>showMessage\<close>) to \<open>shown\<close>, the
  realized amounts (\<open>onTradeClose\<close>) to \<open>reported\<close>. The chart handle of a position is
  left out. A stop-loss or take-profit that is null or NaN is \<open>None\<close>. State updates take
  effect in the order in which the handlers request them, each handler call running once;
  how the user-interface library schedules or repeats calls is not part of the model.
\<close>

definition LOT_SIZE :: real where "LOT_SIZE = 100000"

definition LEVERAGE_OPTIONS :: "real list" where
  "LEVERAGE_OPTIONS = [1, 50, 100, 200, 400]"

definition ALL_SYMBOL_NAMES :: "string list" where
  \<comment> \<open>The names of the catalog of lines 51 to 58.\<close>
  "ALL_SYMBOL_NAMES =
     [''EUR/USD'', ''GBP/USD'', ''USD/JPY'', ''XAU/USD'', ''BTC/USD'', ''ETH/USD'']"

fun str_includes :: "string \<Rightarrow> string \<Rightarrow> bool" where
  \<comment> \<open>\<open>s.includes(sub)\<close>: \<open>sub\<close> occurs in \<open>s\<close> as a substring.\<close>
  "str_includes [] sub = (sub = [])"
| "str_includes (c # cs) sub = (take (length sub) (c # cs) = sub \<or> str_includes cs sub)"

definition contractSize_of :: "string \<Rightarrow> real" where
  \<comment> \<open>Lines 423, 566, 594 and 601, the same expression each time.\<close>
  "contractSize_of symbolName =
     (if str_includes symbolName ''BTC'' \<or> str_includes symbolName ''ETH'' then 1 else LOT_SIZE)"

datatype side = BUY | SELL

record quote =
  bid :: real
  ask :: real

record position =
  pos_id :: string
  symbol :: string
  ptype :: side
  lots :: real
  leverage :: real
  entryPrice :: real
  stopLoss :: "real option"
  takeProfit :: "real option"
  pnl :: real
  openTime :: string

record closed_trade = position +
  exitPrice :: real
  closeTime :: string
  reason :: string

datatype message =
    PricesNotLoaded
  | PricesUnavailable
  | ClosedFor string real string
  | MarketPricesNotAvailable
  | NotEnoughFreeMargin
  | Opened side real string real

record trader =
  prices :: "string \<rightharpoonup> quote"
  pricesRef :: "(string \<rightharpoonup> quote) option"
  positions :: "position list"
  tradeHistory :: "closed_trade list"
  selectedSymbol :: string
  lots_input :: real
  leverage_input :: real
  stopLoss_input :: string
  takeProfit_input :: string
  shown :: "(message \<times> bool) list"
  reported :: "real list"

definition showMessage :: "message \<Rightarrow> bool \<Rightarrow> trader \<Rightarrow> trader" where
  "showMessage m isProfit st = st\<lparr>shown := shown st @ [(m, isProfit)]\<rparr>"

definition truthy_price :: "real option \<Rightarrow> real option" where
  \<comment> \<open>A price used as a condition: null, NaN and 0 are falsy.\<close>
  "truthy_price p = (case p of None \<Rightarrow> None | Some x \<Rightarrow> if x = 0 then None else Some x)"

definition realizedPnl_of :: "position \<Rightarrow> real \<Rightarrow> real" where
  \<comment> \<open>Lines 423 and 424.\<close>
  "realizedPnl_of pos exit =
     (let contractSize = contractSize_of (symbol pos)
      in (if ptype pos = BUY then exit - entryPrice pos else entryPrice pos - exit)
           * lots pos * contractSize)"

definition newHistoryTrade :: "string \<Rightarrow> position \<Rightarrow> real \<Rightarrow> string \<Rightarrow> closed_trade" where
  \<comment> \<open>Line 426: the position's fields, its pnl replaced, and the four new fields.\<close>
  "newHistoryTrade now pos exit rsn =
     \<lparr>pos_id = pos_id pos, symbol = symbol pos, ptype = ptype pos, lots = lots pos,
      leverage = leverage pos, entryPrice = entryPrice pos, stopLoss = stopLoss pos,
      takeProfit = takeProfit pos, pnl = realizedPnl_of pos exit, openTime = openTime pos,
      exitPrice = exit, closeTime = now, reason = rsn\<rparr>"

definition close_at :: "string \<Rightarrow> position \<Rightarrow> real \<Rightarrow> string \<Rightarrow> trader \<Rightarrow> trader" where
  \<comment> \<open>Lines 424 to 441, once the exit price is known.\<close>
  "close_at now pos exit rsn st =
     (let realizedPnl = realizedPnl_of pos exit;
          st1 = st\<lparr>tradeHistory := newHistoryTrade now pos exit rsn # tradeHistory st\<rparr>;
          st2 = st1\<lparr>reported := reported st1 @ [realizedPnl]\<rparr>;
          st3 = showMessage (ClosedFor (symbol pos) realizedPnl rsn) (realizedPnl \<ge> 0) st2
      in st3\<lparr>positions := filter (\<lambda>p. pos_id p \<noteq> pos_id pos) (positions st3)\<rparr>)"

definition handleClosePosition ::
  "string \<Rightarrow> position \<Rightarrow> real option \<Rightarrow> string \<Rightarrow> trader \<Rightarrow> trader" where
  \<comment> \<open>Lines 407 to 443; the first argument is the clock reading of line 426.\<close>
  "handleClosePosition now pos closePrice rsn st =
     (case pricesRef st of
        None \<Rightarrow> showMessage PricesNotLoaded False st
      | Some currentPrices \<Rightarrow>
          (case (truthy_price closePrice, currentPrices (symbol pos)) of
             (None, None) \<Rightarrow> showMessage PricesUnavailable False st
           | (Some p, _) \<Rightarrow> close_at now pos p rsn st
           | (None, Some currentSymbolPrice) \<Rightarrow>
               close_at now pos
                 (if ptype pos = BUY then bid currentSymbolPrice else ask currentSymbolPrice)
                 rsn st))"

definition level_set :: "real option \<Rightarrow> real option" where
  \<comment> \<open>\<open>if (pos.stopLoss)\<close>: a level that is null, NaN or 0 is not tested.\<close>
  "level_set l = (case l of None \<Rightarrow> None | Some x \<Rightarrow> if x = 0 then None else Some x)"

definition trigger_of :: "string \<Rightarrow> real \<Rightarrow> real \<Rightarrow> position \<Rightarrow> (real \<times> string) option" where
  \<comment> \<open>Lines 452 to 471: the close price and reason when the position is to close.\<close>
  "trigger_of symbolName b a pos =
     (if symbol pos \<noteq> symbolName then None
      else
        let bySL =
              (case level_set (stopLoss pos) of
                 None \<Rightarrow> None
               | Some sl \<Rightarrow>
                   if ptype pos = BUY \<and> b \<le> sl then Some (b, ''Stop Loss Hit'')
                   else if ptype pos = SELL \<and> a \<ge> sl then Some (a, ''Stop Loss Hit'')
                   else None)
        in case bySL of
             Some r \<Rightarrow> Some r
           | None \<Rightarrow>
               (case level_set (takeProfit pos) of
                  None \<Rightarrow> None
                | Some tp \<Rightarrow>
                    if ptype pos = BUY \<and> b \<ge> tp then Some (b, ''Take Profit Hit'')
                    else if ptype pos = SELL \<and> a \<le> tp then Some (a, ''Take Profit Hit'')
                    else None))"

fun close_all :: "string \<Rightarrow> (position \<times> real \<times> string) list \<Rightarrow> trader \<Rightarrow> trader" where
  \<comment> \<open>Line 476: \<open>positionsToClose.forEach\<close>.\<close>
  "close_all now [] st = st"
| "close_all now ((pos, closePrice, rsn) # rest) st =
     close_all now rest (handleClosePosition now pos (Some closePrice) rsn st)"

definition positionsToClose :: "string \<Rightarrow> real \<Rightarrow> real \<Rightarrow> position list \<Rightarrow> (position \<times> real \<times> string) list" where
  "positionsToClose symbolName b a ps =
     concat (map (\<lambda>pos. case trigger_of symbolName b a pos of
                           None \<Rightarrow> []
                         | Some (closePrice, rsn) \<Rightarrow> [(pos, closePrice, rsn)]) ps)"

definition checkPriceTriggers :: "string \<Rightarrow> string \<Rightarrow> real \<Rightarrow> real \<Rightarrow> trader \<Rightarrow> trader" where
  \<comment> \<open>Lines 447 to 480. The updater returns the filtered list; the closes it requests act
      on the state that carries that list.\<close>
  "checkPriceTriggers now symbolName b a st =
     (let currentPositions = positions st;
          updatedPositions = filter (\<lambda>pos. trigger_of symbolName b a pos = None) currentPositions
      in close_all now (positionsToClose symbolName b a currentPositions)
           (st\<lparr>positions := updatedPositions\<rparr>))"

definition handleMarketOrder ::
  "to_number \<Rightarrow> string \<Rightarrow> string \<Rightarrow> real \<Rightarrow> side \<Rightarrow> trader \<Rightarrow> trader" where
  \<comment> \<open>Lines 589 to 634. The arguments before the side: \<open>parseFloat\<close>, the fresh id of
      line 612, the clock reading of line 619, the prop \<open>availableCapital\<close>.\<close>
  "handleMarketOrder parseFloat newId now availableCapital type st =
     (case prices st (selectedSymbol st) of
        None \<Rightarrow> showMessage MarketPricesNotAvailable False st
      | Some currentPrice \<Rightarrow>
          let price = (if type = BUY then ask currentPrice else bid currentPrice);
              contractSize = contractSize_of (selectedSymbol st);
              positionValue = price * lots_input st * contractSize;
              marginRequired = positionValue / leverage_input st;
              totalPnl = foldl (\<lambda>acc pos. acc + pnl pos) 0 (positions st);
              marginUsed =
                foldl (\<lambda>acc pos.
                         acc + (entryPrice pos * lots pos * contractSize_of (symbol pos))
                                 / leverage pos)
                  0 (positions st);
              freeMargin = availableCapital + totalPnl - marginUsed
          in if marginRequired > freeMargin then showMessage NotEnoughFreeMargin False st
             else
               let newPosition =
                     \<lparr>pos_id = newId, symbol = selectedSymbol st, ptype = type,
                      lots = lots_input st, leverage = leverage_input st, entryPrice = price,
                      stopLoss =
                        (if stopLoss_input st \<noteq> '''' then parseFloat (stopLoss_input st)
                         else None),
                      takeProfit =
                        (if takeProfit_input st \<noteq> '''' then parseFloat (takeProfit_input st)
                         else None),
                      pnl = 0, openTime = now\<rparr>;
                   st1 = st\<lparr>positions := positions st @ [newPosition]\<rparr>;
                   st2 = showMessage (Opened type (lots_input st) (selectedSymbol st) price) True st1
               in st2\<lparr>stopLoss_input := '''', takeProfit_input := ''''\<rparr>)"

section \<open>Notions used to state the properties of the trader\<close>

definition entry_price :: "side \<Rightarrow> quote \<Rightarrow> real" where
  \<comment> \<open>Section 4.4: the ask for a Long, the bid for a Short.\<close>
  "entry_price sd q = (case sd of BUY \<Rightarrow> ask q | SELL \<Rightarrow> bid q)"

definition marginRequired_of :: "real \<Rightarrow> real \<Rightarrow> string \<Rightarrow> real \<Rightarrow> real" where
  "marginRequired_of price lts symbolName lev = price * lts * contractSize_of symbolName / lev"

definition marginUsed_of :: "position \<Rightarrow> real" where
  "marginUsed_of p = entryPrice p * lots p * contractSize_of (symbol p) / leverage p"

definition freeMargin_of :: "real \<Rightarrow> position list \<Rightarrow> real" where
  "freeMargin_of availableCapital ps =
     availableCapital + sum_list (map pnl ps) - sum_list (map marginUsed_of ps)"

definition side_sign :: "side \<Rightarrow> real" where
  "side_sign sd = (case sd of BUY \<Rightarrow> 1 | SELL \<Rightarrow> - 1)"

definition close_price :: "side \<Rightarrow> quote \<Rightarrow> real" where
  \<comment> \<open>Section 4.4: the bid for a Long, the ask for a Short.\<close>
  "close_price sd q = (case sd of BUY \<Rightarrow> bid q | SELL \<Rightarrow> ask q)"

definition catalog_contract_size :: "string \<Rightarrow> real" where
  \<comment> \<open>Section 4.4: 1 for the two crypto pairs, the standard lot otherwise.\<close>
  "catalog_contract_size symbolName =
     (if symbolName = ''BTC/USD'' \<or> symbolName = ''ETH/USD'' then 1 else 100000)"

definition quotes0 :: "string \<rightharpoonup> quote" where
  \<comment> \<open>The first quote of EUR/USD (line 312): 1.0850 with a spread of 1.2 pips.\<close>
  "quotes0 = [''EUR/USD'' \<mapsto> \<lparr>bid = 108494 / 100000, ask = 108506 / 100000\<rparr>]"

definition trader0 :: trader where
  \<comment> \<open>The trader after mounting (lines 386 to 398), prices loaded.\<close>
  "trader0 =
     \<lparr>prices = quotes0, pricesRef = Some quotes0, positions = [], tradeHistory = [],
      selectedSymbol = ''EUR/USD'', lots_input = 1 / 100, leverage_input = 1,
      stopLoss_input = '''', takeProfit_input = '''', shown = [], reported = []\<rparr>"

definition long0 :: position where
  "long0 =
     \<lparr>pos_id = ''id-1'', symbol = ''EUR/USD'', ptype = BUY, lots = 1 / 100, leverage = 1,
      entryPrice = 108506 / 100000, stopLoss = None, takeProfit = None, pnl = 0,
      openTime = ''t0''\<rparr>"

definition exit_price_of :: "real option \<Rightarrow> position \<Rightarrow> quote \<Rightarrow> real" where
  \<comment> \<open>The explicit price when one is supplied (0 counts as none), else the current bid for
      a Long and the current ask for a Short.\<close>
  "exit_price_of closePrice pos q =
     (case closePrice of
        None \<Rightarrow> close_price (ptype pos) q
      | Some p \<Rightarrow> if p = 0 then close_price (ptype pos) q else p)"

definition sl_fires :: "real \<Rightarrow> real \<Rightarrow> position \<Rightarrow> bool" where
  \<comment> \<open>Section 4.5, with the guard of line 458: a level of 0 is not a level.\<close>
  "sl_fires b a pos =
     (case stopLoss pos of
        None \<Rightarrow> False
      | Some sl \<Rightarrow> sl \<noteq> 0 \<and> (case ptype pos of BUY \<Rightarrow> b \<le> sl | SELL \<Rightarrow> a \<ge> sl))"

definition tp_fires :: "real \<Rightarrow> real \<Rightarrow> position \<Rightarrow> bool" where
  "tp_fires b a pos =
     (case takeProfit pos of
        None \<Rightarrow> False
      | Some tp \<Rightarrow> tp \<noteq> 0 \<and> (case ptype pos of BUY \<Rightarrow> b \<ge> tp | SELL \<Rightarrow> a \<le> tp))"

definition fires :: "string \<Rightarrow> real \<Rightarrow> real \<Rightarrow> position \<Rightarrow> bool" where
  "fires symbolName b a pos =
     (symbol pos = symbolName \<and> (sl_fires b a pos \<or> tp_fires b a pos))"

definition tick_price :: "real \<Rightarrow> real \<Rightarrow> position \<Rightarrow> real" where
  "tick_price b a pos = (case ptype pos of BUY \<Rightarrow> b | SELL \<Rightarrow> a)"

definition tick_reason :: "real \<Rightarrow> real \<Rightarrow> position \<Rightarrow> string" where
  \<comment> \<open>The stop-loss is tested first and wins.\<close>
  "tick_reason b a pos = (if sl_fires b a pos then ''Stop Loss Hit'' else ''Take Profit Hit'')"

definition tick_trade :: "string \<Rightarrow> real \<Rightarrow> real \<Rightarrow> position \<Rightarrow> closed_trade" where
  "tick_trade now b a pos = newHistoryTrade now pos (tick_price b a pos) (tick_reason b a pos)"

definition trader1 :: trader where
  \<comment> \<open>\<open>trader0\<close> with one Long open.\<close>
  "trader1 = trader0\<lparr>positions := [long0]\<rparr>"

definition sl_stated :: "real \<Rightarrow> real \<Rightarrow> position \<Rightarrow> bool" where
  \<comment> \<open>The stop-loss test as the claim words it: every level that is present is tested.\<close>
  "sl_stated b a pos =
     (case stopLoss pos of
        None \<Rightarrow> False
      | Some sl \<Rightarrow> (case ptype pos of BUY \<Rightarrow> b \<le> sl | SELL \<Rightarrow> a \<ge> sl))"

definition long_sl :: position where
  \<comment> \<open>A Long with its stop-loss at 1.0800.\<close>
  "long_sl =
     \<lparr>pos_id = ''id-1'', symbol = ''EUR/USD'', ptype = BUY, lots = 1 / 100, leverage = 100,
      entryPrice = 108506 / 100000, stopLoss = Some (108 / 100), takeProfit = Some (109 / 100),
      pnl = 0, openTime = ''t0''\<rparr>"

definition short_tp :: position where
  \<comment> \<open>A Short whose levels the tick below does not reach.\<close>
  "short_tp =
     \<lparr>pos_id = ''id-2'', symbol = ''EUR/USD'', ptype = SELL, lots = 1 / 100, leverage = 100,
      entryPrice = 108494 / 100000, stopLoss = Some (109 / 100), takeProfit = Some (107 / 100),
      pnl = 0, openTime = ''t0''\<rparr>"

definition short_zero :: position where
  \<comment> \<open>A Short opened with 0 typed into the stop-loss field.\<close>
  "short_zero =
     \<lparr>pos_id = ''id-3'', symbol = ''EUR/USD'', ptype = SELL, lots = 1 / 100, leverage = 1,
      entryPrice = 108494 / 100000, stopLoss = Some 0, takeProfit = None,
      pnl = 0, openTime = ''t0''\<rparr>"

definition long_both :: position where
  \<comment> \<open>A Long whose two levels are both crossed by a bid of 1.0799.\<close>
  "long_both =
     \<lparr>pos_id = ''id-4'', symbol = ''EUR/USD'', ptype = BUY, lots = 1 / 100, leverage = 100,
      entryPrice = 108506 / 100000, stopLoss = Some (1085 / 1000), takeProfit = Some (107 / 100),
      pnl = 0, openTime = ''t0''\<rparr>"

definition trader2 :: trader where
  "trader2 = trader0\<lparr>positions := [long_sl, short_tp, long_both]\<rparr>"

definition trader3 :: trader where
  "trader3 = trader0\<lparr>positions := [short_zero]\<rparr>"

section \<open>recalculatePlan on a store of day objects\<close>

text \<open>
  The functions above compute on values. The source works on objects: line 172 copies the
  calendar, and the loop of line 193 assigns to the fields of the day objects of the copy.
  Whether the caller's objects change depends on the sharing, so it is stated on a store:
  a map from references to day objects with an allocation pointer. A month holds the
  references of its days. Months and the months array are never assigned to by the
  function and stay values. One iteration of the loop is \<open>day_step\<close>, as above; here its
  result is written back at the reference of the day.
\<close>

type_synonym ref = nat

record js_heap =
  objs :: "ref \<rightharpoonup> trading_day"
  next_ref :: ref

record month_obj =
  obj_id :: int
  obj_monthName :: string
  day_refs :: "ref list"

record heap_document =
  ref_initialCapital :: real
  ref_finalTarget :: real
  ref_tenure :: int
  ref_months :: "month_obj list"
  ref_hiddenSymbols :: "string list"
  ref_version :: int

fun read_days :: "js_heap \<Rightarrow> ref list \<Rightarrow> trading_day list option" where
  "read_days h [] = Some []"
| "read_days h (r # rs) =
     (case objs h r of
        None \<Rightarrow> None
      | Some d \<Rightarrow> (case read_days h rs of None \<Rightarrow> None | Some ds \<Rightarrow> Some (d # ds)))"

fun stringify :: "js_heap \<Rightarrow> month_obj list \<Rightarrow> month list option" where
  \<comment> \<open>\<open>JSON.stringify\<close>: the value of a calendar, read through its references.\<close>
  "stringify h [] = Some []"
| "stringify h (m # ms) =
     (case read_days h (day_refs m) of
        None \<Rightarrow> None
      | Some ds \<Rightarrow>
          (case stringify h ms of
             None \<Rightarrow> None
           | Some vs \<Rightarrow>
               Some (\<lparr>month_id = obj_id m, monthName = obj_monthName m, days = ds\<rparr> # vs)))"

fun alloc_days :: "js_heap \<Rightarrow> trading_day list \<Rightarrow> js_heap \<times> ref list" where
  "alloc_days h [] = (h, [])"
| "alloc_days h (d # ds) =
     (let r = next_ref h;
          (h', rs) = alloc_days (h\<lparr>objs := (objs h)(r \<mapsto> d), next_ref := Suc r\<rparr>) ds
      in (h', r # rs))"

fun parse :: "js_heap \<Rightarrow> month list \<Rightarrow> js_heap \<times> month_obj list" where
  \<comment> \<open>\<open>JSON.parse\<close>: a fresh object for every day of the value.\<close>
  "parse h [] = (h, [])"
| "parse h (m # ms) =
     (let (h1, rs) = alloc_days h (days m);
          (h2, os) = parse h1 ms
      in (h2, \<lparr>obj_id = month_id m, obj_monthName = monthName m, day_refs = rs\<rparr> # os))"

fun walk_refs ::
  "to_number \<Rightarrow> js_heap \<Rightarrow> walk_state \<Rightarrow> ref list \<Rightarrow> js_error + (js_heap \<times> walk_state)" where
  \<comment> \<open>The loop of line 193 over \<open>allDays\<close>: each day object is written in place.\<close>
  "walk_refs toNumber h s [] = Inr (h, s)"
| "walk_refs toNumber h s (r # rs) =
     (case objs h r of
        None \<Rightarrow> Inl TypeError
      | Some d \<Rightarrow>
          (case day_step toNumber s d of
             Inl e \<Rightarrow> Inl e
           | Inr (d', s') \<Rightarrow> walk_refs toNumber (h\<lparr>objs := (objs h)(r \<mapsto> d')\<rparr>) s' rs))"

definition document_value :: "js_heap \<Rightarrow> heap_document \<Rightarrow> plan_document option" where
  "document_value h D =
     (case stringify h (ref_months D) of
        None \<Rightarrow> None
      | Some ms \<Rightarrow>
          Some \<lparr>initialCapital = ref_initialCapital D, finalTarget = ref_finalTarget D,
                tenure = ref_tenure D, months = ms, hiddenSymbols = ref_hiddenSymbols D,
                version = ref_version D\<rparr>)"

definition recalculatePlan_heap ::
  "to_number \<Rightarrow> js_heap \<Rightarrow> heap_document \<Rightarrow> js_error + (js_heap \<times> month_obj list)" where
  \<comment> \<open>recalculatePlan on a store of day objects: the heap after the call and the months
      array it returns.\<close>
  "recalculatePlan_heap toNumber h D =
     (case document_value h D of
        None \<Rightarrow> Inl TypeError
      | Some fullData \<Rightarrow>
          let (h1, newMonths) = parse h (months fullData);
              allDays = concat (map day_refs newMonths)
          in case walk_refs toNumber h1 (initial_state fullData) allDays of
               Inl e \<Rightarrow> Inl e
             | Inr (h2, _) \<Rightarrow> Inr (h2, newMonths))"

definition heap_ok :: "js_heap \<Rightarrow> bool" where
  \<comment> \<open>Every object lies below the allocation pointer.\<close>
  "heap_ok h = (dom (objs h) \<subseteq> {..<next_ref h})"

definition all_refs :: "month_obj list \<Rightarrow> ref list" where
  \<comment> \<open>Line 173 on references: \<open>newMonths.flatMap(m => m.days)\<close>.\<close>
  "all_refs os = concat (map day_refs os)"

definition heap0 :: js_heap where
  \<comment> \<open>Two day objects, the days of \<open>plan_b\<close>.\<close>
  "heap0 =
     \<lparr>objs = [0 \<mapsto> blank_day 1 ''2025-11-17'' True ''+'' ''299.625'',
              1 \<mapsto> blank_day 2 ''2025-11-18'' False ''+'' ''''],
      next_ref = 2\<rparr>"

definition doc0 :: heap_document where
  "doc0 =
     \<lparr>ref_initialCapital = 100, ref_finalTarget = 400, ref_tenure = 2,
      ref_months = [\<lparr>obj_id = 1, obj_monthName = ''November 2025'', day_refs = [0, 1]\<rparr>],
      ref_hiddenSymbols = [], ref_version = 2\<rparr>"

section \<open>Properties of recalculatePlan\<close>

lemma length_extend_goals:
  "length (extend_goals s) =
     (if totalDaysElapsed s \<ge> length (plannedGoals s) then Suc (length (plannedGoals s))
      else length (plannedGoals s))"
  by (simp add: extend_goals_def)

lemma day_step_idem:
  assumes "day_step toNumber s d = Inr (d', s')"
  shows "day_step toNumber s d' = Inr (d', s')"
  using assms by (auto simp: day_step_def Let_def signedProfit_def split: if_splits)

lemma day_step_inv:
  assumes "goals_inv s"
  shows "\<exists>d' s'. day_step toNumber s d = Inr (d', s') \<and> goals_inv s'"
  using assms by (auto simp: day_step_def Let_def goals_inv_def length_extend_goals)

lemma walk_days_inv:
  "goals_inv s \<Longrightarrow> \<exists>ds' s'. walk_days toNumber s ds = Inr (ds', s') \<and> goals_inv s'"
proof (induction ds arbitrary: s)
  case Nil
  then show ?case by simp
next
  case (Cons d ds)
  from day_step_inv [OF Cons.prems] obtain d' s1
    where 1: "day_step toNumber s d = Inr (d', s1)" and 2: "goals_inv s1" by blast
  from Cons.IH [OF 2] obtain ds' s2
    where 3: "walk_days toNumber s1 ds = Inr (ds', s2)" and 4: "goals_inv s2" by blast
  show ?case using 1 3 4 by simp
qed

lemma walk_months_inv:
  "goals_inv s \<Longrightarrow> \<exists>ms' s'. walk_months toNumber s ms = Inr (ms', s') \<and> goals_inv s'"
proof (induction ms arbitrary: s)
  case Nil
  then show ?case by simp
next
  case (Cons m ms)
  from walk_days_inv [OF Cons.prems] obtain ds' s1
    where 1: "walk_days toNumber s (days m) = Inr (ds', s1)" and 2: "goals_inv s1" by blast
  from Cons.IH [OF 2] obtain ms' s2
    where 3: "walk_months toNumber s1 ms = Inr (ms', s2)" and 4: "goals_inv s2" by blast
  show ?case using 1 3 4 by simp
qed

lemma walk_days_idem:
  "walk_days toNumber s ds = Inr (ds', s') \<Longrightarrow> walk_days toNumber s ds' = Inr (ds', s')"
proof (induction ds arbitrary: s ds' s')
  case Nil
  then show ?case by simp
next
  case (Cons d ds)
  from Cons.prems obtain d1 s1 ds1 where
    1: "day_step toNumber s d = Inr (d1, s1)" and
    2: "walk_days toNumber s1 ds = Inr (ds1, s')" and 3: "ds' = d1 # ds1"
    by (auto split: sum.splits prod.splits)
  from day_step_idem [OF 1] Cons.IH [OF 2] 3 show ?case by simp
qed

lemma walk_months_idem:
  "walk_months toNumber s ms = Inr (ms', s') \<Longrightarrow> walk_months toNumber s ms' = Inr (ms', s')"
proof (induction ms arbitrary: s ms' s')
  case Nil
  then show ?case by simp
next
  case (Cons m ms)
  from Cons.prems obtain ds1 s1 ms1 where
    1: "walk_days toNumber s (days m) = Inr (ds1, s1)" and
    2: "walk_months toNumber s1 ms = Inr (ms1, s')" and 3: "ms' = m\<lparr>days := ds1\<rparr> # ms1"
    by (auto split: sum.splits prod.splits)
  from walk_days_idem [OF 1] Cons.IH [OF 2] 3 show ?case by simp
qed

lemma recalculate_body_total:
  "\<exists>ms. recalculate_body toNumber t c f ms0 = Inr ms"
proof -
  let ?s = "\<lparr>actualCapital = c, totalDaysElapsed = 0,
      plannedGoals = plannedGoals_loop (nat t) (initialDailyRate t c f) c []\<rparr>"
  have "goals_inv ?s" by (simp add: goals_inv_def)
  from walk_months_inv [OF this] obtain ms' s'
    where "walk_months toNumber ?s ms0 = Inr (ms', s')" by blast
  then show ?thesis by (simp add: recalculate_body_def Let_def)
qed

lemma recalculate_body_idem:
  assumes "recalculate_body toNumber t c f ms0 = Inr ms"
  shows "recalculate_body toNumber t c f ms = Inr ms"
proof -
  let ?s = "\<lparr>actualCapital = c, totalDaysElapsed = 0,
      plannedGoals = plannedGoals_loop (nat t) (initialDailyRate t c f) c []\<rparr>"
  from assms obtain s' where 1: "walk_months toNumber ?s ms0 = Inr (ms, s')"
    unfolding recalculate_body_def Let_def by (auto split: sum.splits prod.splits)
  from walk_months_idem [OF 1] show ?thesis
    unfolding recalculate_body_def Let_def by simp
qed

lemma recalculatePlan_total: "\<exists>ms. recalculatePlan toNumber P = Inr ms"
  unfolding recalculatePlan_def by (rule recalculate_body_total)

text \<open>
  Claim C1. For every plan document (its config valid or not) recalculatePlan returns a
  calendar, and recalculating the document that carries this calendar returns the same
  calendar, field for field.
\<close>

theorem recalculatePlan_idempotent:
  "\<exists>ms. recalculatePlan toNumber P = Inr ms \<and>
        recalculatePlan toNumber (P\<lparr>months := ms\<rparr>) = Inr ms"
proof -
  obtain ms where 1: "recalculatePlan toNumber P = Inr ms"
    using recalculatePlan_total by blast
  have 2: "validTenure (P\<lparr>months := ms\<rparr>) = validTenure P"
    "validInitialCapital (P\<lparr>months := ms\<rparr>) = validInitialCapital P"
    "validFinalTarget (P\<lparr>months := ms\<rparr>) = validFinalTarget P"
    by (simp_all add: validTenure_def validInitialCapital_def validFinalTarget_def)
  from 1 have "recalculate_body toNumber (validTenure P) (validInitialCapital P)
       (validFinalTarget P) (months P) = Inr ms"
    by (simp only: recalculatePlan_def)
  from recalculate_body_idem [OF this]
  have "recalculatePlan toNumber (P\<lparr>months := ms\<rparr>) = Inr ms"
    by (simp add: recalculatePlan_def 2)
  with 1 show ?thesis by blast
qed

lemma walk_days_append:
  "walk_days toNumber s (xs @ ys) =
     (case walk_days toNumber s xs of
        Inl e \<Rightarrow> Inl e
      | Inr (xs', s1) \<Rightarrow>
          (case walk_days toNumber s1 ys of
             Inl e \<Rightarrow> Inl e
           | Inr (ys', s2) \<Rightarrow> Inr (xs' @ ys', s2)))"
  by (induction xs arbitrary: s) (auto split: sum.splits prod.splits)

lemma walk_months_allDays:
  "walk_months toNumber s ms = Inr (ms', s') \<Longrightarrow>
   walk_days toNumber s (allDays ms) = Inr (allDays ms', s')"
proof (induction ms arbitrary: s ms' s')
  case Nil
  then show ?case by (simp add: allDays_def)
next
  case (Cons m ms)
  from Cons.prems obtain ds1 s1 ms1 where
    1: "walk_days toNumber s (days m) = Inr (ds1, s1)" and
    2: "walk_months toNumber s1 ms = Inr (ms1, s')" and 3: "ms' = m\<lparr>days := ds1\<rparr> # ms1"
    by (auto split: sum.splits prod.splits)
  from Cons.IH [OF 2] have "walk_days toNumber s1 (allDays ms) = Inr (allDays ms1, s')" .
  with 1 3 show ?case by (simp add: allDays_def walk_days_append)
qed

lemma day_step_journal:
  "day_step toNumber s d = Inr (d', s') \<Longrightarrow> journal d' = journal d"
  by (auto simp: day_step_def Let_def journal_def split: if_splits)

lemma walk_days_journal:
  "walk_days toNumber s ds = Inr (ds', s') \<Longrightarrow> map journal ds' = map journal ds"
proof (induction ds arbitrary: s ds' s')
  case Nil
  then show ?case by simp
next
  case (Cons d ds)
  from Cons.prems obtain d1 s1 ds1 where
    1: "day_step toNumber s d = Inr (d1, s1)" and
    2: "walk_days toNumber s1 ds = Inr (ds1, s')" and 3: "ds' = d1 # ds1"
    by (auto split: sum.splits prod.splits)
  from day_step_journal [OF 1] Cons.IH [OF 2] 3 show ?case by simp
qed

lemma walk_months_frame:
  "walk_months toNumber s ms = Inr (ms', s') \<Longrightarrow> map month_frame ms' = map month_frame ms"
proof (induction ms arbitrary: s ms' s')
  case Nil
  then show ?case by simp
next
  case (Cons m ms)
  from Cons.prems obtain ds1 s1 ms1 where
    1: "walk_days toNumber s (days m) = Inr (ds1, s1)" and
    2: "walk_months toNumber s1 ms = Inr (ms1, s')" and 3: "ms' = m\<lparr>days := ds1\<rparr> # ms1"
    by (auto split: sum.splits prod.splits)
  from walk_days_journal [OF 1] Cons.IH [OF 2] 3 show ?case by (simp add: month_frame_def)
qed

lemma day_step_fields:
  assumes "day_step toNumber s d = Inr (d', s')"
  shows "capital d' = Math_round (actualCapital s)"
    and "dailyRate d' = rate_for (actualCapital s) (target d')"
    and "actualCapital s' =
      (if actual d' \<noteq> JStr '''' then actualCapital s + signedProfit toNumber d' else target d')"
  using assms
  by (auto simp: day_step_def Let_def rate_for_def signedProfit_def split: if_splits)

lemma walk_days_capital:
  "walk_days toNumber s ds = Inr (ds', s') \<Longrightarrow>
   map capital ds' = map Math_round (actual_path toNumber (actualCapital s) ds') \<and>
   map dailyRate ds' = map2 rate_for (actual_path toNumber (actualCapital s) ds') (map target ds')"
proof (induction ds arbitrary: s ds' s')
  case Nil
  then show ?case by simp
next
  case (Cons d ds)
  from Cons.prems obtain d1 s1 ds1 where
    1: "day_step toNumber s d = Inr (d1, s1)" and
    2: "walk_days toNumber s1 ds = Inr (ds1, s')" and 3: "ds' = d1 # ds1"
    by (auto split: sum.splits prod.splits)
  from day_step_fields [OF 1] Cons.IH [OF 2] 3 show ?case by simp
qed

lemma length_actual_path [simp]: "length (actual_path toNumber a ds) = length ds"
  by (induction ds arbitrary: a) auto

lemma actual_path_Suc:
  "Suc i < length ds \<Longrightarrow>
   actual_path toNumber a ds ! Suc i =
     (if actual (ds ! i) \<noteq> JStr '''' then actual_path toNumber a ds ! i + signedProfit toNumber (ds ! i)
      else target (ds ! i))"
proof (induction ds arbitrary: a i)
  case Nil
  then show ?case by simp
next
  case (Cons d ds)
  show ?case
  proof (cases i)
    case 0
    with Cons.prems show ?thesis by (cases ds) auto
  next
    case (Suc j)
    with Cons.prems have "Suc j < length ds" by simp
    from Cons.IH [OF this] Suc show ?thesis by simp
  qed
qed

lemma Math_pow_root: "0 < x \<Longrightarrow> 0 < n \<Longrightarrow> Math_pow (x ^ n) (1 / real n) = x"
  by (simp add: Math_pow_def powr_realpow [symmetric] powr_powr)

lemma rate_a: "initialDailyRate 4 100 1600 = 1"
proof -
  have "Math_pow (2 ^ 4) (1 / real 4) = (2::real)" by (rule Math_pow_root) simp_all
  then have "Math_pow 16 (1 / 4) = (2::real)" by simp
  then show ?thesis by (simp add: initialDailyRate_def isNaN_js_def isFinite_js_def)
qed

lemma dec1: "decimal_literal ''0.375'' = Some (3/8)"
  by (simp add: decimal_literal_def digit_value_def)

lemma Math_round_of_int: "Math_round (of_int n) = of_int n"
proof -
  have "\<lfloor>(of_int n :: real) + 1 / 2\<rfloor> = n" by linarith
  then show ?thesis by (simp add: Math_round_def)
qed

lemma whole_Math_round: "whole (Math_round x)"
  unfolding whole_def using Math_round_of_int [of "\<lfloor>x + 1 / 2\<rfloor>"]
  by (simp add: Math_round_def)

lemma plannedGoals_loop_acc:
  "plannedGoals_loop n r c acc = acc @ plannedGoals_loop n r c []"
proof (induction n arbitrary: c acc)
  case 0
  show ?case by simp
next
  case (Suc n)
  let ?g = "\<lparr>goal_target = Math_round (c * (1 + r)), goal_profit = Math_round (c * (1 + r) - c)\<rparr>"
  have "plannedGoals_loop (Suc n) r c acc = (acc @ [?g]) @ plannedGoals_loop n r (c * (1 + r)) []"
    using Suc.IH [of "c * (1 + r)" "acc @ [?g]"] by (simp add: Let_def)
  moreover have "plannedGoals_loop (Suc n) r c [] = [?g] @ plannedGoals_loop n r (c * (1 + r)) []"
    using Suc.IH [of "c * (1 + r)" "[?g]"] by (simp add: Let_def)
  ultimately show ?case by simp
qed

lemma plannedGoals_loop_Suc:
  "plannedGoals_loop (Suc n) r c [] =
     \<lparr>goal_target = Math_round (c * (1 + r)), goal_profit = Math_round (c * (1 + r) - c)\<rparr> #
     plannedGoals_loop n r (c * (1 + r)) []"
  using plannedGoals_loop_acc [of n r "c * (1 + r)"
      "[\<lparr>goal_target = Math_round (c * (1 + r)), goal_profit = Math_round (c * (1 + r) - c)\<rparr>]"]
  by (simp add: Let_def)

lemma length_plannedGoals_loop: "length (plannedGoals_loop n r c []) = n"
  by (induction n arbitrary: c) (simp_all add: plannedGoals_loop_Suc del: plannedGoals_loop.simps(2))

lemma plannedGoals_loop_whole:
  "list_all (\<lambda>g. whole (goal_target g)) (plannedGoals_loop n r c [])"
  by (induction n arbitrary: c)
    (simp_all add: plannedGoals_loop_Suc whole_Math_round del: plannedGoals_loop.simps(2))

lemma validTenure_pos: "0 < validTenure P"
  by (simp add: validTenure_def DEFAULT_TENURE_DAYS_def)

lemma initial_state_inv: "goals_inv (initial_state P)"
  by (simp add: goals_inv_def initial_state_def)

lemma initial_state_whole: "goals_whole (initial_state P)"
proof -
  have "length (plannedGoals (initial_state P)) = nat (validTenure P)"
    by (simp add: initial_state_def length_plannedGoals_loop)
  with validTenure_pos [of P] have "plannedGoals (initial_state P) \<noteq> []" by auto
  then show ?thesis
    by (simp add: goals_whole_def) (simp add: initial_state_def plannedGoals_loop_whole)
qed

lemma extend_goals_whole:
  "goals_whole s \<Longrightarrow> extend_goals s \<noteq> [] \<and> list_all (\<lambda>g. whole (goal_target g)) (extend_goals s)"
  by (cases "plannedGoals s")
    (auto simp: goals_whole_def extend_goals_def list_all_iff)

lemma day_step_whole:
  assumes "goals_whole s" and "day_step toNumber s d = Inr (d', s')"
  shows "whole (target d') \<and> goals_whole s'"
proof -
  from assms(2) have n: "totalDaysElapsed s < length (extend_goals s)"
    and t: "target d' = goal_target (extend_goals s ! totalDaysElapsed s)"
    and g: "plannedGoals s' = extend_goals s"
    by (auto simp: day_step_def Let_def split: if_splits)
  from extend_goals_whole [OF assms(1)] n t g show ?thesis
    by (auto simp: goals_whole_def list_all_length)
qed

lemma walk_days_whole:
  "goals_whole s \<Longrightarrow> walk_days toNumber s ds = Inr (ds', s') \<Longrightarrow>
   list_all (\<lambda>d. whole (target d)) ds'"
proof (induction ds arbitrary: s ds' s')
  case Nil
  then show ?case by simp
next
  case (Cons d ds)
  from Cons.prems(2) obtain d1 s1 ds1 where
    1: "day_step toNumber s d = Inr (d1, s1)" and
    2: "walk_days toNumber s1 ds = Inr (ds1, s')" and 3: "ds' = d1 # ds1"
    by (auto split: sum.splits prod.splits)
  from day_step_whole [OF Cons.prems(1) 1] have 4: "whole (target d1)" "goals_whole s1" by simp_all
  from Cons.IH [OF 4(2) 2] 4(1) 3 show ?case by simp
qed

lemma walk_days_length:
  "walk_days toNumber s ds = Inr (ds', s') \<Longrightarrow> length ds' = length ds"
  by (induction ds arbitrary: s ds' s') (auto split: sum.splits prod.splits)

lemma recalculatePlan_walk:
  "\<exists>ms s'. recalculatePlan toNumber P = Inr ms \<and>
     walk_days toNumber (initial_state P) (allDays (months P)) = Inr (allDays ms, s')"
proof -
  from walk_months_inv [OF initial_state_inv] obtain ms s'
    where 1: "walk_months toNumber (initial_state P) (months P) = Inr (ms, s')" by blast
  then have "recalculatePlan toNumber P = Inr ms"
    by (simp add: recalculatePlan_def recalculate_body_def Let_def initial_state_def)
  with walk_months_allDays [OF 1] show ?thesis by blast
qed

lemma recalculatePlan_path:
  obtains ds s' where
    "allDays_of (recalculatePlan toNumber P) = ds"
    "walk_days toNumber (initial_state P) (allDays (months P)) = Inr (ds, s')"
    "length ds = length (allDays (months P))"
    "map capital ds = map Math_round (actual_path toNumber (validInitialCapital P) ds)"
    "map dailyRate ds = map2 rate_for (actual_path toNumber (validInitialCapital P) ds) (map target ds)"
    "list_all (\<lambda>d. whole (target d)) ds"
proof -
  from recalculatePlan_walk obtain ms s' where
    1: "recalculatePlan toNumber P = Inr ms" and
    2: "walk_days toNumber (initial_state P) (allDays (months P)) = Inr (allDays ms, s')"
    by blast
  have a: "actualCapital (initial_state P) = validInitialCapital P"
    by (simp add: initial_state_def)
  show thesis
  proof (rule that [of "allDays ms" s'])
    show "allDays_of (recalculatePlan toNumber P) = allDays ms"
      by (simp add: 1 allDays_of_def)
    show "walk_days toNumber (initial_state P) (allDays (months P)) = Inr (allDays ms, s')"
      by (rule 2)
    show "length (allDays ms) = length (allDays (months P))"
      by (rule walk_days_length [OF 2])
    show "map capital (allDays ms) =
        map Math_round (actual_path toNumber (validInitialCapital P) (allDays ms))"
      using walk_days_capital [OF 2] a by simp
    show "map dailyRate (allDays ms) =
        map2 rate_for (actual_path toNumber (validInitialCapital P) (allDays ms))
          (map target (allDays ms))"
      using walk_days_capital [OF 2] a by simp
    show "list_all (\<lambda>d. whole (target d)) (allDays ms)"
      by (rule walk_days_whole [OF initial_state_whole 2])
  qed
qed

lemma nth_of_map_eq:
  "map f xs = map g ys \<Longrightarrow> i < length xs \<Longrightarrow> f (xs ! i) = g (ys ! i)"
  by (metis length_map nth_map)

text \<open>
  Claim C2, as amended. For consecutive days \<open>i\<close> and \<open>i + 1\<close> of the recalculated
  calendar the start capital of day \<open>i\<close> is the rounded running capital \<open>a\<close> before
  that day; the start capital of day \<open>i + 1\<close> is \<open>round (a + s)\<close> when day \<open>i\<close> has a
  recorded signed outcome \<open>s\<close>, and the target of day \<open>i\<close> when it has none. The running
  capital is kept unrounded by the loop (line 213), so \<open>round (a + s)\<close> is not always
  \<open>round (round a + s)\<close>.
\<close>

theorem recalculatePlan_capital_chain:
  assumes "Suc i < length (allDays_of (recalculatePlan toNumber P))"
  shows "capital (allDays_of (recalculatePlan toNumber P) ! i) =
           Math_round (actual_path toNumber (validInitialCapital P)
                         (allDays_of (recalculatePlan toNumber P)) ! i) \<and>
         capital (allDays_of (recalculatePlan toNumber P) ! Suc i) =
           (if actual (allDays_of (recalculatePlan toNumber P) ! i) \<noteq> JStr ''''
            then Math_round
                   (actual_path toNumber (validInitialCapital P)
                      (allDays_of (recalculatePlan toNumber P)) ! i +
                    signedProfit toNumber (allDays_of (recalculatePlan toNumber P) ! i))
            else target (allDays_of (recalculatePlan toNumber P) ! i))"
proof -
  obtain ds s' where ds: "allDays_of (recalculatePlan toNumber P) = ds"
    and cap: "map capital ds = map Math_round (actual_path toNumber (validInitialCapital P) ds)"
    and wh: "list_all (\<lambda>d. whole (target d)) ds"
    by (rule recalculatePlan_path)
  let ?path = "actual_path toNumber (validInitialCapital P) ds"
  from assms ds have i: "Suc i < length ds" by simp
  have c0: "capital (ds ! i) = Math_round (?path ! i)"
    using nth_of_map_eq [OF cap, of i] i by simp
  have c1: "capital (ds ! Suc i) = Math_round (?path ! Suc i)"
    using nth_of_map_eq [OF cap, of "Suc i"] i by simp
  have "whole (target (ds ! i))" using wh i by (simp add: list_all_length)
  then have w: "Math_round (target (ds ! i)) = target (ds ! i)" by (simp add: whole_def)
  show ?thesis
    unfolding ds using c0 c1 w actual_path_Suc [OF i, of toNumber "validInitialCapital P"]
    by simp
qed

lemma rate_b: "initialDailyRate 2 100 400 = 1"
proof -
  have "Math_pow (2 ^ 2) (1 / real 2) = (2::real)" by (rule Math_pow_root) simp_all
  then have "Math_pow 4 (1 / 2) = (2::real)" by simp
  then show ?thesis by (simp add: initialDailyRate_def isNaN_js_def isFinite_js_def)
qed

lemmas plan_eval =
  allDays_of_def recalculatePlan_def recalculate_body_def
  validTenure_def validInitialCapital_def validFinalTarget_def blank_day_def
  day_step_def extend_goals_def signedProfit_def Number_or_zero_def allDays_def
  Math_round_def Let_def numeral_eq_Suc

lemma dec2: "decimal_literal ''299.625'' = Some (2397/8)"
  by (simp add: decimal_literal_def digit_value_def)

lemma dec3: "decimal_literal ''500'' = Some 500"
  by (simp add: decimal_literal_def digit_value_def)

lemma plan_a_result:
  "allDays_of (recalculatePlan decimal_literal plan_a) =
     [done_day 1 ''2025-11-17'' False ''+'' ''0.375'' 100 200 100 1,
      done_day 2 ''2025-11-18'' False ''+'' ''0.375'' 100 400 200 (2397 / 803),
      done_day 3 ''2025-11-19'' False ''+'' '''' 101 800 400 (2797 / 403),
      done_day 4 ''2025-11-20'' False ''+'' '''' 800 1600 800 1]"
  by (simp add: plan_eval plan_a_def rate_a dec1 done_day_def)

lemma plan_b_result:
  "allDays_of (recalculatePlan decimal_literal plan_b) =
     [done_day 1 ''2025-11-17'' True ''+'' ''299.625'' 100 200 100 1,
      done_day 2 ''2025-11-18'' False ''+'' '''' 400 400 200 (3 / 3197)]"
  by (simp add: plan_eval plan_b_def rate_b dec2 done_day_def)

lemma plan_c_result:
  "allDays_of (recalculatePlan decimal_literal plan_c) =
     [done_day 1 ''2025-11-17'' True ''+'' ''500'' 100 200 100 1,
      done_day 2 ''2025-11-18'' False ''+'' '''' 600 400 200 0]"
  by (simp add: plan_eval plan_c_def rate_b dec3 done_day_def)

lemmas day_eval = done_day_def blank_day_def signedProfit_def Number_or_zero_def Math_round_def

text \<open>
  Claim C2 as stated fails on the journal \<open>plan_a\<close>: days 1 and 2 both record +0.375 on a
  capital of 100. Day 2 starts at 100 (100.375 rounded), day 3 starts at 101 (100.75
  rounded), yet rounding the start capital of day 2 plus its outcome gives 100.
\<close>

theorem capital_chain_counterexample:
  "actual (allDays_of (recalculatePlan decimal_literal plan_a) ! 1) = JStr ''0.375'' \<and>
   pnlSign (allDays_of (recalculatePlan decimal_literal plan_a) ! 1) = ''+'' \<and>
   capital (allDays_of (recalculatePlan decimal_literal plan_a) ! 1) = 100 \<and>
   capital (allDays_of (recalculatePlan decimal_literal plan_a) ! 2) = 101 \<and>
   Math_round (capital (allDays_of (recalculatePlan decimal_literal plan_a) ! 1) +
               signedProfit decimal_literal
                 (allDays_of (recalculatePlan decimal_literal plan_a) ! 1)) = 100"
  by (simp add: plan_a_result day_eval dec1)

text \<open>The amended C2 on \<open>plan_a\<close>, at a recorded day (index 1) and at an open one (index 2).\<close>

theorem recalculatePlan_capital_chain_witness:
  "Suc 1 < length (allDays_of (recalculatePlan decimal_literal plan_a)) \<and>
   actual (allDays_of (recalculatePlan decimal_literal plan_a) ! 1) \<noteq> JStr '''' \<and>
   capital (allDays_of (recalculatePlan decimal_literal plan_a) ! 1) = Math_round (803 / 8) \<and>
   capital (allDays_of (recalculatePlan decimal_literal plan_a) ! Suc 1) =
     Math_round (803 / 8 + 3 / 8) \<and>
   Suc 2 < length (allDays_of (recalculatePlan decimal_literal plan_a)) \<and>
   actual (allDays_of (recalculatePlan decimal_literal plan_a) ! 2) = JStr '''' \<and>
   capital (allDays_of (recalculatePlan decimal_literal plan_a) ! Suc 2) =
     target (allDays_of (recalculatePlan decimal_literal plan_a) ! 2)"
proof -
  have l: "Suc 1 < length (allDays_of (recalculatePlan decimal_literal plan_a))"
    "Suc 2 < length (allDays_of (recalculatePlan decimal_literal plan_a))"
    by (simp_all add: plan_a_result)
  have v: "validInitialCapital plan_a = 100"
    by (simp add: validInitialCapital_def plan_a_def)
  from recalculatePlan_capital_chain [OF l(1)] recalculatePlan_capital_chain [OF l(2)]
  show ?thesis
    by (simp add: v plan_a_result day_eval dec1)
qed

lemma rate_for_nonneg: "0 \<le> rate_for a t"
  by (simp add: rate_for_def)

lemma rate_for_zero: "t \<le> a \<Longrightarrow> rate_for a t = 0"
  by (simp add: rate_for_def)

lemma Math_round_less_whole:
  assumes "whole t" and "t < Math_round a"
  shows "t \<le> a"
proof -
  from assms(1) have t: "t = of_int \<lfloor>t + 1 / 2\<rfloor>" by (simp add: whole_def Math_round_def)
  from assms(2) have "of_int \<lfloor>t + 1 / 2\<rfloor> < (of_int \<lfloor>a + 1 / 2\<rfloor> :: real)"
    using t by (simp add: Math_round_def)
  then have "\<lfloor>t + 1 / 2\<rfloor> + 1 \<le> \<lfloor>a + 1 / 2\<rfloor>" by simp
  then have "of_int (\<lfloor>t + 1 / 2\<rfloor> + 1) \<le> a + 1 / 2" by (simp only: le_floor_iff)
  with t show ?thesis by simp
qed

text \<open>
  Claim C3, as amended. On every day of the recalculated calendar the daily rate is not
  negative; it is \<open>target / a - 1\<close> when \<open>0 < a < target\<close> and 0 otherwise, where \<open>a\<close>
  is the unrounded running capital before the day and the stored start capital is
  \<open>round a\<close>. So the rate is 0 whenever \<open>a\<close> has reached the target, and whenever the
  stored start capital is above the target.
\<close>

theorem recalculatePlan_dailyRate:
  assumes "i < length (allDays_of (recalculatePlan toNumber P))"
  shows "0 \<le> dailyRate (allDays_of (recalculatePlan toNumber P) ! i) \<and>
         capital (allDays_of (recalculatePlan toNumber P) ! i) =
           Math_round (actual_path toNumber (validInitialCapital P)
                         (allDays_of (recalculatePlan toNumber P)) ! i) \<and>
         dailyRate (allDays_of (recalculatePlan toNumber P) ! i) =
           rate_for (actual_path toNumber (validInitialCapital P)
                       (allDays_of (recalculatePlan toNumber P)) ! i)
             (target (allDays_of (recalculatePlan toNumber P) ! i)) \<and>
         (target (allDays_of (recalculatePlan toNumber P) ! i)
            \<le> actual_path toNumber (validInitialCapital P)
                  (allDays_of (recalculatePlan toNumber P)) ! i \<longrightarrow>
          dailyRate (allDays_of (recalculatePlan toNumber P) ! i) = 0) \<and>
         (target (allDays_of (recalculatePlan toNumber P) ! i)
            < capital (allDays_of (recalculatePlan toNumber P) ! i) \<longrightarrow>
          dailyRate (allDays_of (recalculatePlan toNumber P) ! i) = 0)"
proof -
  obtain ds s' where ds: "allDays_of (recalculatePlan toNumber P) = ds"
    and cap: "map capital ds = map Math_round (actual_path toNumber (validInitialCapital P) ds)"
    and rt: "map dailyRate ds =
      map2 rate_for (actual_path toNumber (validInitialCapital P) ds) (map target ds)"
    and wh: "list_all (\<lambda>d. whole (target d)) ds"
    by (rule recalculatePlan_path)
  let ?path = "actual_path toNumber (validInitialCapital P) ds"
  from assms ds have i: "i < length ds" by simp
  have c: "capital (ds ! i) = Math_round (?path ! i)"
    using nth_of_map_eq [OF cap, of i] i by simp
  have "dailyRate (ds ! i) = map2 rate_for ?path (map target ds) ! i"
    using arg_cong [OF rt, of "\<lambda>xs. xs ! i"] i by simp
  then have r: "dailyRate (ds ! i) = rate_for (?path ! i) (target (ds ! i))"
    using i by simp
  have w: "whole (target (ds ! i))" using wh i by (simp add: list_all_length)
  have "target (ds ! i) < capital (ds ! i) \<Longrightarrow> target (ds ! i) \<le> ?path ! i"
    using Math_round_less_whole [OF w] c by simp
  then show ?thesis
    unfolding ds using c r rate_for_nonneg rate_for_zero by auto
qed

lemma plan_c_path:
  "actual_path decimal_literal 100 (allDays_of (recalculatePlan decimal_literal plan_c)) =
     [100, 600]"
  by (simp add: plan_c_result day_eval dec3)

text \<open>The amended C3 on \<open>plan_c\<close>: day 2 starts at 600, above its target 400.\<close>

theorem recalculatePlan_dailyRate_witness:
  "1 < length (allDays_of (recalculatePlan decimal_literal plan_c)) \<and>
   target (allDays_of (recalculatePlan decimal_literal plan_c) ! 1) \<le> 600 \<and>
   target (allDays_of (recalculatePlan decimal_literal plan_c) ! 1)
     < capital (allDays_of (recalculatePlan decimal_literal plan_c) ! 1) \<and>
   dailyRate (allDays_of (recalculatePlan decimal_literal plan_c) ! 1) = 0 \<and>
   0 \<le> dailyRate (allDays_of (recalculatePlan decimal_literal plan_c) ! 0)"
proof -
  have l: "1 < length (allDays_of (recalculatePlan decimal_literal plan_c))"
    "0 < length (allDays_of (recalculatePlan decimal_literal plan_c))"
    by (simp_all add: plan_c_result)
  have v: "validInitialCapital plan_c = 100"
    by (simp add: validInitialCapital_def plan_c_def)
  from recalculatePlan_dailyRate [OF l(1)] recalculatePlan_dailyRate [OF l(2)]
  show ?thesis
    by (simp add: v plan_c_result plan_c_path day_eval)
qed

text \<open>
  Claim C3 as stated fails on \<open>plan_b\<close>: after +299.625 on day 1 the running capital is
  399.625, stored as 400, which equals the target 400 of day 2; the rate of day 2 is
  \<open>400 / 399.625 - 1\<close>, not 0.
\<close>

theorem dailyRate_counterexample:
  "capital (allDays_of (recalculatePlan decimal_literal plan_b) ! 1) = 400 \<and>
   target (allDays_of (recalculatePlan decimal_literal plan_b) ! 1) = 400 \<and>
   dailyRate (allDays_of (recalculatePlan decimal_literal plan_b) ! 1) = 3 / 3197 \<and>
   target (allDays_of (recalculatePlan decimal_literal plan_b) ! 1)
     \<le> capital (allDays_of (recalculatePlan decimal_literal plan_b) ! 1) \<and>
   dailyRate (allDays_of (recalculatePlan decimal_literal plan_b) ! 1) \<noteq> 0"
  by (simp add: plan_b_result day_eval)

text \<open>
  Claim C8. The returned calendar has the months of the input, each with its id and name,
  and the days of the input in the same order, each with its index, date, achieved,
  pnlSign, actual, winningTrades, losingTrades, logic and rules unchanged.
\<close>

theorem recalculatePlan_frame:
  "\<exists>ms. recalculatePlan toNumber P = Inr ms \<and>
        map month_frame ms = map month_frame (months P)"
proof -
  from walk_months_inv [OF initial_state_inv] obtain ms s'
    where 1: "walk_months toNumber (initial_state P) (months P) = Inr (ms, s')" by blast
  then have "recalculatePlan toNumber P = Inr ms"
    by (simp add: recalculatePlan_def recalculate_body_def Let_def initial_state_def)
  with walk_months_frame [OF 1] show ?thesis by blast
qed

lemma sanitized_eq:
  "validTenure P = sanitized_tenure (tenure P)"
  "validInitialCapital P = sanitized_capital (initialCapital P)"
  "validFinalTarget P = sanitized_target (sanitized_capital (initialCapital P)) (finalTarget P)"
  by (simp_all add: validTenure_def validInitialCapital_def validFinalTarget_def
      sanitized_tenure_def sanitized_capital_def sanitized_target_def
      DEFAULT_TENURE_DAYS_def DEFAULT_INITIAL_CAPITAL_def)

lemma sanitized_target_raw:
  "f \<le> c \<Longrightarrow> sanitized_target (sanitized_capital c) f = 2 * sanitized_capital c"
  by (simp add: sanitized_target_def sanitized_capital_def)

lemma plannedGoals_loop_powers:
  "plannedGoals_loop n r c [] =
     map (\<lambda>i. \<lparr>goal_target = Math_round (c * (1 + r) ^ Suc i),
               goal_profit = Math_round (c * (1 + r) ^ Suc i - c * (1 + r) ^ i)\<rparr>) [0..<n]"
proof (induction n arbitrary: c)
  case 0
  show ?case by simp
next
  case (Suc n)
  let ?G = "\<lambda>c i. \<lparr>goal_target = Math_round (c * (1 + r) ^ Suc i),
               goal_profit = Math_round (c * (1 + r) ^ Suc i - c * (1 + r) ^ i)\<rparr>"
  have s: "?G (c * (1 + r)) i = ?G c (Suc i)" for i by (simp add: mult.assoc)
  have "plannedGoals_loop (Suc n) r c [] = ?G c 0 # map (?G (c * (1 + r))) [0..<n]"
    using Suc.IH [of "c * (1 + r)"] by (simp add: plannedGoals_loop_Suc del: plannedGoals_loop.simps)
  also have "map (?G (c * (1 + r))) [0..<n] = map (\<lambda>i. ?G c (Suc i)) [0..<n]"
    by (simp only: s)
  also have "\<dots> = map (?G c) [Suc 0..<Suc n]"
    by (simp only: map_Suc_upt [symmetric] map_map o_def)
  also have "?G c 0 # map (?G c) [Suc 0..<Suc n] = map (?G c) [0..<Suc n]"
    by (simp only: upt_conv_Cons [of 0 "Suc n"] zero_less_Suc list.map)
  finally show ?case .
qed

lemma plannedGoals_loop_ideal:
  assumes "0 < t"
  shows "plannedGoals_loop (nat t) r c [] = map (ideal_goal t c r) [0..<nat t]"
proof -
  have "i < nat t \<Longrightarrow> min i (nat t - 1) = i" for i by simp
  then show ?thesis
    unfolding plannedGoals_loop_powers by (simp add: ideal_goal_def Let_def)
qed

lemma ideal_goal_past:
  "nat t - 1 \<le> i \<Longrightarrow> ideal_goal t c r (Suc i) = ideal_goal t c r i"
  by (simp add: ideal_goal_def Let_def min_def)

lemma extend_goals_ideal:
  assumes t: "0 < t" and inv: "ideal_goals t c r s"
  shows "nat t \<le> length (extend_goals s)"
    and "totalDaysElapsed s < length (extend_goals s)"
    and "extend_goals s = map (ideal_goal t c r) [0..<length (extend_goals s)]"
proof -
  let ?pg = "plannedGoals s"
  let ?n = "length ?pg"
  from inv have 1: "nat t \<le> ?n" and 2: "totalDaysElapsed s \<le> ?n"
    and 3: "?pg = map (ideal_goal t c r) [0..<?n]"
    by (simp_all add: ideal_goals_def)
  from t 1 have ne: "?pg \<noteq> []" by auto
  then have pos: "0 < ?n" by simp
  show "nat t \<le> length (extend_goals s)" using 1 by (simp add: extend_goals_def)
  show "totalDaysElapsed s < length (extend_goals s)" using 2 by (simp add: extend_goals_def)
  show "extend_goals s = map (ideal_goal t c r) [0..<length (extend_goals s)]"
  proof (cases "?n \<le> totalDaysElapsed s")
    case False
    then show ?thesis using 3 by (simp add: extend_goals_def)
  next
    case True
    from pos obtain m where m: "?n = Suc m" by (cases ?n) auto
    have "last ?pg = ?pg ! m" using ne m by (simp add: last_conv_nth)
    also have "\<dots> = map (ideal_goal t c r) [0..<?n] ! m" using 3 by simp
    also have "\<dots> = ideal_goal t c r m" using m by (simp del: upt_Suc)
    also have "\<dots> = ideal_goal t c r (Suc m)"
      using 1 m by (simp add: ideal_goal_past)
    finally have l: "last ?pg = ideal_goal t c r ?n" using m by simp
    from ne obtain g gs where "?pg = g # gs" by (cases ?pg) auto
    then have "extend_goals s = ?pg @ [last ?pg]" using True by (simp add: extend_goals_def)
    then have e: "extend_goals s = map (ideal_goal t c r) [0..<?n] @ [ideal_goal t c r ?n]"
      using 3 l by simp
    then have "length (extend_goals s) = Suc ?n" by simp
    with e show ?thesis by simp
  qed
qed

lemma day_step_ideal:
  assumes t: "0 < t" and inv: "ideal_goals t c r s"
    and st: "day_step toNumber s d = Inr (d', s')"
  shows "target d' = goal_target (ideal_goal t c r (totalDaysElapsed s))"
    and "profit d' = goal_profit (ideal_goal t c r (totalDaysElapsed s))"
    and "ideal_goals t c r s'"
    and "totalDaysElapsed s' = Suc (totalDaysElapsed s)"
proof -
  note e = extend_goals_ideal [OF t inv]
  from st have f: "target d' = goal_target (extend_goals s ! totalDaysElapsed s)"
    "profit d' = goal_profit (extend_goals s ! totalDaysElapsed s)"
    "plannedGoals s' = extend_goals s" "totalDaysElapsed s' = Suc (totalDaysElapsed s)"
    by (auto simp: day_step_def Let_def split: if_splits)
  have "extend_goals s ! totalDaysElapsed s =
      map (ideal_goal t c r) [0..<length (extend_goals s)] ! totalDaysElapsed s"
    using e(3) by simp
  also have "\<dots> = ideal_goal t c r (totalDaysElapsed s)"
    using e(2) by (simp del: upt_Suc)
  finally have g: "extend_goals s ! totalDaysElapsed s = ideal_goal t c r (totalDaysElapsed s)" .
  show "target d' = goal_target (ideal_goal t c r (totalDaysElapsed s))" by (simp add: f(1) g)
  show "profit d' = goal_profit (ideal_goal t c r (totalDaysElapsed s))" by (simp add: f(2) g)
  show "totalDaysElapsed s' = Suc (totalDaysElapsed s)" by (rule f(4))
  show "ideal_goals t c r s'"
    unfolding ideal_goals_def f(3) f(4) using e by simp
qed

lemma walk_days_ideal:
  "0 < t \<Longrightarrow> ideal_goals t c r s \<Longrightarrow> walk_days toNumber s ds = Inr (ds', s') \<Longrightarrow>
   map target ds' =
     map (\<lambda>i. goal_target (ideal_goal t c r i))
       [totalDaysElapsed s..<totalDaysElapsed s + length ds'] \<and>
   map profit ds' =
     map (\<lambda>i. goal_profit (ideal_goal t c r i))
       [totalDaysElapsed s..<totalDaysElapsed s + length ds']"
proof (induction ds arbitrary: s ds' s')
  case Nil
  then show ?case by simp
next
  case (Cons d ds)
  from Cons.prems(3) obtain d1 s1 ds1 where
    1: "day_step toNumber s d = Inr (d1, s1)" and
    2: "walk_days toNumber s1 ds = Inr (ds1, s')" and 3: "ds' = d1 # ds1"
    by (auto split: sum.splits prod.splits)
  note st = day_step_ideal [OF Cons.prems(1) Cons.prems(2) 1]
  note ih = Cons.IH [OF Cons.prems(1) st(3) 2, unfolded st(4)]
  have u: "[totalDaysElapsed s..<totalDaysElapsed s + length ds'] =
      totalDaysElapsed s # [Suc (totalDaysElapsed s)..<Suc (totalDaysElapsed s) + length ds1]"
    using 3 by (simp add: upt_conv_Cons del: upt_Suc)
  show ?case unfolding u using ih st(1,2) 3 by simp
qed

lemma sanitized_valid:
  "0 < sanitized_tenure t" "0 < sanitized_capital c"
  "sanitized_capital c < sanitized_target (sanitized_capital c) f"
  by (simp_all add: sanitized_tenure_def sanitized_capital_def sanitized_target_def)

lemma required_rate_pos:
  assumes "0 < t" and "0 < c" and "c < f"
  shows "0 < required_rate t c f" and "initialDailyRate t c f = required_rate t c f"
proof -
  from assms have "1 < f / c" by simp
  moreover from assms have "0 < 1 / (of_int t :: real)" by simp
  ultimately have "1 < (f / c) powr (1 / of_int t)" by (rule gr_one_powr)
  then show 1: "0 < required_rate t c f" by (simp add: required_rate_def Math_pow_def)
  then show "initialDailyRate t c f = required_rate t c f"
    by (simp add: initialDailyRate_def required_rate_def Let_def isNaN_js_def isFinite_js_def)
qed

lemma initial_state_ideal:
  "ideal_goals (validTenure P) (validInitialCapital P)
     (initialDailyRate (validTenure P) (validInitialCapital P) (validFinalTarget P))
     (initial_state P)"
  using validTenure_pos [of P]
  by (simp add: ideal_goals_def initial_state_def length_plannedGoals_loop
      plannedGoals_loop_ideal)

text \<open>
  Claim C7. For every config, valid or not, recalculatePlan returns a calendar, and the
  four financial fields of its days are those of the sanitized config: tenure 66 when
  \<open>tenure \<le> 0\<close>, initial capital 50000 when \<open>initialCapital \<le> 0\<close>, final target twice the
  (sanitized) initial capital when \<open>finalTarget\<close> does not exceed it. The sanitized values
  form a valid config, so the rate is \<open>(f / c) powr (1 / t) - 1 > 0\<close> and not the fallback
  rate; target and profit of day \<open>i\<close> are the rounded ideal path from the sanitized capital
  at that rate, its last entry repeated past the sanitized tenure; the start capital is
  the rounded running capital that starts at the sanitized capital, and the daily rate
  is taken from that running capital and the target. The journal fields are those of
  the input.
\<close>

theorem recalculatePlan_sanitizes:
  "(let t = sanitized_tenure (tenure P);
        c = sanitized_capital (initialCapital P);
        f = sanitized_target c (finalTarget P);
        r = required_rate t c f;
        ds = allDays_of (recalculatePlan toNumber P);
        path = actual_path toNumber c ds
    in (\<exists>ms. recalculatePlan toNumber P = Inr ms) \<and>
       0 < t \<and> 0 < c \<and> c < f \<and> 0 < r \<and>
       map journal ds = map journal (allDays (months P)) \<and>
       map target ds = map (\<lambda>i. goal_target (ideal_goal t c r i)) [0..<length ds] \<and>
       map profit ds = map (\<lambda>i. goal_profit (ideal_goal t c r i)) [0..<length ds] \<and>
       map capital ds = map Math_round path \<and>
       map dailyRate ds = map2 rate_for path (map target ds))"
proof -
  let ?t = "sanitized_tenure (tenure P)"
  let ?c = "sanitized_capital (initialCapital P)"
  let ?f = "sanitized_target ?c (finalTarget P)"
  let ?r = "required_rate ?t ?c ?f"
  have v: "0 < ?t" "0 < ?c" "?c < ?f" by (rule sanitized_valid)+
  note rr = required_rate_pos [OF v]
  obtain ds s' where ds: "allDays_of (recalculatePlan toNumber P) = ds"
    and w: "walk_days toNumber (initial_state P) (allDays (months P)) = Inr (ds, s')"
    and cap: "map capital ds = map Math_round (actual_path toNumber (validInitialCapital P) ds)"
    and rate: "map dailyRate ds =
       map2 rate_for (actual_path toNumber (validInitialCapital P) ds) (map target ds)"
    by (rule recalculatePlan_path)
  have inv: "ideal_goals ?t ?c ?r (initial_state P)"
    using initial_state_ideal [of P] by (simp only: sanitized_eq rr(2))
  have z: "totalDaysElapsed (initial_state P) = 0" by (simp add: initial_state_def)
  from walk_days_ideal [OF v(1) inv w] have goals:
    "map target ds = map (\<lambda>i. goal_target (ideal_goal ?t ?c ?r i)) [0..<length ds]"
    "map profit ds = map (\<lambda>i. goal_profit (ideal_goal ?t ?c ?r i)) [0..<length ds]"
    by (simp_all add: z)
  have j: "map journal ds = map journal (allDays (months P))"
    by (rule walk_days_journal [OF w])
  from recalculatePlan_total [of toNumber P] v rr(1) j goals cap rate
  show ?thesis unfolding Let_def ds sanitized_eq by simp
qed

lemma invalid_rate_bounds:
  "1055 / 100000 < required_rate 66 50000 100000 \<and>
   required_rate 66 50000 100000 < 1056 / 100000"
proof -
  have lo: "(101055 / 100000 :: real) ^ 66 < 2" by (simp add: power_divide)
  have hi: "(2::real) < (101056 / 100000) ^ 66" by (simp add: power_divide)
  have r1: "Math_pow ((101055 / 100000) ^ 66) (1 / real 66) = 101055 / 100000"
    by (rule Math_pow_root) simp_all
  have r2: "Math_pow ((101056 / 100000) ^ 66) (1 / real 66) = 101056 / 100000"
    by (rule Math_pow_root) simp_all
  have "Math_pow ((101055 / 100000) ^ 66) (1 / real 66) < Math_pow 2 (1 / real 66)"
    unfolding Math_pow_def by (rule powr_less_mono2) (use lo in simp_all)
  with r1 have a: "101055 / 100000 < Math_pow 2 (1 / 66)" by simp
  have "Math_pow 2 (1 / real 66) < Math_pow ((101056 / 100000) ^ 66) (1 / real 66)"
    unfolding Math_pow_def by (rule powr_less_mono2) (use hi in simp_all)
  with r2 have b: "Math_pow 2 (1 / 66) < 101056 / 100000" by simp
  from a b show ?thesis by (simp add: required_rate_def)
qed

lemma invalid_first_round:
  assumes "1055 / 100000 < r" and "r < 1056 / 100000"
  shows "Math_round (50000 + 50000 * r) = 50528" and "Math_round (50000 * r) = 528"
proof -
  have "\<lfloor>50000 + 50000 * r + 1 / 2\<rfloor> = 50528" using assms by (simp add: floor_eq_iff)
  then show "Math_round (50000 + 50000 * r) = 50528" by (simp add: Math_round_def)
  have "\<lfloor>50000 * r + 1 / 2\<rfloor> = 528" using assms by (simp add: floor_eq_iff)
  then show "Math_round (50000 * r) = 528" by (simp add: Math_round_def)
qed

lemma plan_invalid_fields:
  "sanitized_tenure (tenure plan_invalid) = 66"
  "sanitized_capital (initialCapital plan_invalid) = 50000"
  "sanitized_target 50000 (finalTarget plan_invalid) = 100000"
  "allDays (months plan_invalid) =
     [blank_day 1 ''2025-11-17'' False ''+'' '''', blank_day 2 ''2025-11-18'' False ''+'' '''']"
  by (simp_all add: plan_invalid_def sanitized_tenure_def sanitized_capital_def
      sanitized_target_def allDays_def)

text \<open>
  C7 on a document with tenure 0, initial capital -100 and final target 10: the plan is
  the one of tenure 66, capital 50000 and target 100000. Day 1 starts at 50000 with
  target 50528, profit 528 and rate 1.056 per cent, and day 2 starts at 50528.
\<close>

theorem recalculatePlan_sanitizes_witness:
  "tenure plan_invalid \<le> 0 \<and> initialCapital plan_invalid \<le> 0 \<and>
   finalTarget plan_invalid \<le> 50000 \<and>
   (\<exists>ms. recalculatePlan decimal_literal plan_invalid = Inr ms) \<and>
   length (allDays_of (recalculatePlan decimal_literal plan_invalid)) = 2 \<and>
   capital (allDays_of (recalculatePlan decimal_literal plan_invalid) ! 0) = 50000 \<and>
   target (allDays_of (recalculatePlan decimal_literal plan_invalid) ! 0) = 50528 \<and>
   profit (allDays_of (recalculatePlan decimal_literal plan_invalid) ! 0) = 528 \<and>
   dailyRate (allDays_of (recalculatePlan decimal_literal plan_invalid) ! 0) = 528 / 50000 \<and>
   capital (allDays_of (recalculatePlan decimal_literal plan_invalid) ! 1) = 50528"
proof -
  let ?ds = "allDays_of (recalculatePlan decimal_literal plan_invalid)"
  let ?r = "required_rate 66 50000 100000"
  note T = recalculatePlan_sanitizes [where P = plan_invalid and toNumber = decimal_literal,
      unfolded Let_def plan_invalid_fields]
  from T have ret: "\<exists>ms. recalculatePlan decimal_literal plan_invalid = Inr ms"
    by (rule conjunct1)
  note T5 = T [THEN conjunct2, THEN conjunct2, THEN conjunct2, THEN conjunct2, THEN conjunct2]
  note jn = T5 [THEN conjunct1]
  note tg = T5 [THEN conjunct2, THEN conjunct1]
  note pf = T5 [THEN conjunct2, THEN conjunct2, THEN conjunct1]
  note cp = T5 [THEN conjunct2, THEN conjunct2, THEN conjunct2, THEN conjunct1]
  note dr = T5 [THEN conjunct2, THEN conjunct2, THEN conjunct2, THEN conjunct2]
  from jn have "length (map journal ?ds) = 2" by simp
  then have len: "length ?ds = 2" by simp
  then obtain d1 d2 where ds: "?ds = [d1, d2]"
    by (auto simp: length_Suc_conv numeral_2_eq_2)
  have u: "[0..<length ?ds] = [0, Suc 0]" unfolding len by (simp add: numeral_2_eq_2)
  from invalid_rate_bounds have b: "1055 / 100000 < ?r" "?r < 1056 / 100000" by simp_all
  note rd = invalid_first_round [OF b]
  from tg have t1: "target d1 = 50528"
    unfolding u unfolding ds by (simp add: ideal_goal_def Let_def rd)
  from pf have p1: "profit d1 = 528"
    unfolding u unfolding ds by (simp add: ideal_goal_def Let_def rd)
  from jn have a1: "actual d1 = JStr ''''"
    unfolding ds by (simp add: journal_def blank_day_def)
  from cp have c: "capital d1 = 50000" "capital d2 = 50528"
    unfolding ds by (simp_all add: a1 t1 Math_round_def)
  from dr have r1: "dailyRate d1 = 528 / 50000"
    unfolding ds by (simp add: a1 t1 rate_for_def)
  have "tenure plan_invalid \<le> 0 \<and> initialCapital plan_invalid \<le> 0 \<and>
      finalTarget plan_invalid \<le> 50000"
    by (simp add: plan_invalid_def)
  with ret len t1 p1 c r1 show ?thesis unfolding ds by simp
qed

lemma default_rate_bounds:
  "4643 / 100000 < initialDailyRate 66 50000 1000000 \<and>
   initialDailyRate 66 50000 1000000 < 4644 / 100000"
proof -
  have lo: "(104643 / 100000 :: real) ^ 66 < 20" by (simp add: power_divide)
  have hi: "(20::real) < (104644 / 100000) ^ 66" by (simp add: power_divide)
  have r1: "Math_pow ((104643 / 100000) ^ 66) (1 / real 66) = 104643 / 100000"
    by (rule Math_pow_root) simp_all
  have r2: "Math_pow ((104644 / 100000) ^ 66) (1 / real 66) = 104644 / 100000"
    by (rule Math_pow_root) simp_all
  have "Math_pow ((104643 / 100000) ^ 66) (1 / real 66) < Math_pow 20 (1 / real 66)"
    unfolding Math_pow_def by (rule powr_less_mono2) (use lo in simp_all)
  with r1 have a: "104643 / 100000 < Math_pow 20 (1 / 66)" by simp
  have "Math_pow 20 (1 / real 66) < Math_pow ((104644 / 100000) ^ 66) (1 / real 66)"
    unfolding Math_pow_def by (rule powr_less_mono2) (use hi in simp_all)
  with r2 have b: "Math_pow 20 (1 / 66) < 104644 / 100000" by simp
  from a b show ?thesis
    by (simp add: initialDailyRate_def isNaN_js_def isFinite_js_def)
qed

lemma first_day_goal:
  assumes "allDays (months P) \<noteq> []"
  shows "allDays_of (recalculatePlan toNumber P) \<noteq> [] \<and>
    target (hd (allDays_of (recalculatePlan toNumber P))) =
      Math_round (validInitialCapital P *
        (1 + initialDailyRate (validTenure P) (validInitialCapital P) (validFinalTarget P))) \<and>
    profit (hd (allDays_of (recalculatePlan toNumber P))) =
      Math_round (validInitialCapital P *
        (1 + initialDailyRate (validTenure P) (validInitialCapital P) (validFinalTarget P))
        - validInitialCapital P)"
proof -
  let ?c = "validInitialCapital P"
  let ?r = "initialDailyRate (validTenure P) ?c (validFinalTarget P)"
  obtain ds s' where ds: "allDays_of (recalculatePlan toNumber P) = ds"
    and w: "walk_days toNumber (initial_state P) (allDays (months P)) = Inr (ds, s')"
    by (rule recalculatePlan_path)
  from assms obtain d rest where dr: "allDays (months P) = d # rest"
    by (cases "allDays (months P)") auto
  from w dr obtain d1 s1 ds1 where
    1: "day_step toNumber (initial_state P) d = Inr (d1, s1)" and 3: "ds = d1 # ds1"
    by (auto split: sum.splits prod.splits)
  from validTenure_pos [of P] obtain m where m: "nat (validTenure P) = Suc m"
    by (cases "nat (validTenure P)") auto
  have g: "plannedGoals (initial_state P) =
      \<lparr>goal_target = Math_round (?c * (1 + ?r)), goal_profit = Math_round (?c * (1 + ?r) - ?c)\<rparr> #
      plannedGoals_loop m ?r (?c * (1 + ?r)) []"
    by (simp add: initial_state_def m plannedGoals_loop_Suc del: plannedGoals_loop.simps)
  have e: "extend_goals (initial_state P) = plannedGoals (initial_state P)"
    "totalDaysElapsed (initial_state P) = 0"
    by (simp_all add: extend_goals_def g) (simp_all add: initial_state_def)
  from 1 have "target d1 = goal_target (plannedGoals (initial_state P) ! 0)"
    "profit d1 = goal_profit (plannedGoals (initial_state P) ! 0)"
    by (auto simp: day_step_def Let_def e split: if_splits)
  then show ?thesis unfolding ds 3 by (simp add: g)
qed

lemma default_first_round:
  assumes "4643 / 100000 < r" and "r < 4644 / 100000"
  shows "Math_round (50000 * (1 + r)) = 52322" and "Math_round (50000 * (1 + r) - 50000) = 2322"
proof -
  have "\<lfloor>50000 * (1 + r) + 1 / 2\<rfloor> = 52322" using assms by (simp add: floor_eq_iff) 
  then show "Math_round (50000 * (1 + r)) = 52322" by (simp add: Math_round_def)
  have "\<lfloor>50000 * (1 + r) - 50000 + 1 / 2\<rfloor> = 2322" using assms by (simp add: floor_eq_iff)
  then show "Math_round (50000 * (1 + r) - 50000) = 2322" by (simp add: Math_round_def)
qed

text \<open>
  Claim C9, as amended. For initialCapital 50000, finalTarget 1000000 and tenure 66 the
  daily rate \<open>20 powr (1 / 66) - 1\<close> lies between 4.643 and 4.644 per cent, and the first
  day of the recalculated plan has target 52322 and profit 2322.
\<close>

theorem default_plan_first_day:
  assumes "initialCapital P = 50000" and "finalTarget P = 1000000" and "tenure P = 66"
    and "allDays (months P) \<noteq> []"
  shows "4643 / 100000 < initialDailyRate (validTenure P) (validInitialCapital P) (validFinalTarget P) \<and>
         initialDailyRate (validTenure P) (validInitialCapital P) (validFinalTarget P) < 4644 / 100000 \<and>
         allDays_of (recalculatePlan toNumber P) \<noteq> [] \<and>
         target (hd (allDays_of (recalculatePlan toNumber P))) = 52322 \<and>
         profit (hd (allDays_of (recalculatePlan toNumber P))) = 2322"
proof -
  have v: "validTenure P = 66" "validInitialCapital P = 50000" "validFinalTarget P = 1000000"
    using assms(1-3) by (simp_all add: validTenure_def validInitialCapital_def validFinalTarget_def)
  from default_rate_bounds have b: "4643 / 100000 < initialDailyRate 66 50000 1000000"
    "initialDailyRate 66 50000 1000000 < 4644 / 100000" by simp_all
  from first_day_goal [OF assms(4), of toNumber] default_first_round [OF b] b
  show ?thesis by (simp add: v)
qed

lemma plan_default_fields:
  "initialCapital plan_default = 50000" "finalTarget plan_default = 1000000"
  "tenure plan_default = 66" "allDays (months plan_default) \<noteq> []"
  by (simp_all add: plan_default_def allDays_def)

text \<open>The amended C9 on the journal that a new user gets.\<close>

theorem default_plan_first_day_witness:
  "initialCapital plan_default = 50000 \<and> finalTarget plan_default = 1000000 \<and>
   tenure plan_default = 66 \<and> allDays (months plan_default) \<noteq> [] \<and>
   target (hd (allDays_of (recalculatePlan decimal_literal plan_default))) = 52322 \<and>
   profit (hd (allDays_of (recalculatePlan decimal_literal plan_default))) = 2322"
  using default_plan_first_day [OF plan_default_fields, of decimal_literal] plan_default_fields
  by simp

text \<open>
  Claim C9 as stated gives 4.66 per cent, 52330 and 2330. Read at the precision written
  (half a unit of the last digit of the rate, the nearest ten for the amounts) none of the
  three figures is met by the default plan.
\<close>

theorem default_plan_counterexample:
  "\<not> \<bar>initialDailyRate 66 50000 1000000 - 466 / 10000\<bar> \<le> 1 / 20000 \<and>
   target (hd (allDays_of (recalculatePlan decimal_literal plan_default))) \<noteq> 52330 \<and>
   \<not> \<bar>target (hd (allDays_of (recalculatePlan decimal_literal plan_default))) - 52330\<bar> \<le> 5 \<and>
   profit (hd (allDays_of (recalculatePlan decimal_literal plan_default))) \<noteq> 2330 \<and>
   \<not> \<bar>profit (hd (allDays_of (recalculatePlan decimal_literal plan_default))) - 2330\<bar> \<le> 5"
proof -
  have v: "validTenure plan_default = 66" "validInitialCapital plan_default = 50000"
    "validFinalTarget plan_default = 1000000"
    by (simp_all add: validTenure_def validInitialCapital_def validFinalTarget_def plan_default_def)
  from default_rate_bounds have b: "4643 / 100000 < initialDailyRate 66 50000 1000000"
    "initialDailyRate 66 50000 1000000 < 4644 / 100000" by simp_all
  from first_day_goal [OF plan_default_fields(4), of decimal_literal] default_first_round [OF b] b
  show ?thesis by (simp add: v)
qed

section \<open>Properties of the demo trader\<close>

lemma foldl_plus_sum_list:
  "foldl (\<lambda>acc x. acc + f x) a xs = (a::real) + sum_list (map f xs)"
  by (induction xs arbitrary: a) simp_all

lemma handleMarketOrder_unfold:
  assumes "prices st (selectedSymbol st) = Some q"
  shows "handleMarketOrder parseFloat newId now availableCapital sd st =
     (if marginRequired_of (entry_price sd q) (lots_input st) (selectedSymbol st) (leverage_input st)
           > freeMargin_of availableCapital (positions st)
      then showMessage NotEnoughFreeMargin False st
      else (showMessage
              (Opened sd (lots_input st) (selectedSymbol st) (entry_price sd q)) True
              (st\<lparr>positions := positions st @
                 [\<lparr>pos_id = newId, symbol = selectedSymbol st, ptype = sd,
                   lots = lots_input st, leverage = leverage_input st,
                   entryPrice = entry_price sd q,
                   stopLoss =
                     (if stopLoss_input st \<noteq> '''' then parseFloat (stopLoss_input st) else None),
                   takeProfit =
                     (if takeProfit_input st \<noteq> '''' then parseFloat (takeProfit_input st)
                      else None),
                   pnl = 0, openTime = now\<rparr>]\<rparr>))
            \<lparr>stopLoss_input := '''', takeProfit_input := ''''\<rparr>)"
proof -
  have e: "(if sd = BUY then ask q else bid q) = entry_price sd q"
    by (cases sd) (simp_all add: entry_price_def)
  have m: "foldl (\<lambda>acc pos. acc + entryPrice pos * lots pos * contractSize_of (symbol pos) / leverage pos)
             0 (positions st) = sum_list (map marginUsed_of (positions st))"
    using foldl_plus_sum_list [of marginUsed_of 0 "positions st"]
    by (simp add: marginUsed_of_def [abs_def])
  have p: "foldl (\<lambda>acc pos. acc + pnl pos) 0 (positions st) = sum_list (map pnl (positions st))"
    using foldl_plus_sum_list [of pnl 0 "positions st"] by simp
  show ?thesis
    unfolding handleMarketOrder_def
    by (simp add: assms Let_def e m p marginRequired_of_def freeMargin_of_def)
qed

text \<open>
  Claim C4. For a market open with a current quote, \<open>marginRequired\<close> being
  \<open>entryPrice * lots * contractSize / leverage\<close> and \<open>freeMargin\<close> being
  \<open>availableCapital + sum pnl - sum marginUsed\<close> over the open positions: the order is
  rejected with the margin notification exactly when \<open>marginRequired > freeMargin\<close>; a
  rejected order leaves the open positions and the trade history unchanged; an accepted
  order appends exactly one position, with pnl 0, and leaves the history unchanged.
  Leverages are taken from the options of the form, as the source takes them.
\<close>

theorem handleMarketOrder_margin:
  assumes "prices st (selectedSymbol st) = Some q"
    and "leverage_input st \<in> set LEVERAGE_OPTIONS"
    and "list_all (\<lambda>p. leverage p \<in> set LEVERAGE_OPTIONS) (positions st)"
  shows
    "(handleMarketOrder parseFloat newId now availableCapital sd st
        = showMessage NotEnoughFreeMargin False st)
       = (marginRequired_of (entry_price sd q) (lots_input st) (selectedSymbol st)
            (leverage_input st) > freeMargin_of availableCapital (positions st)) \<and>
     (marginRequired_of (entry_price sd q) (lots_input st) (selectedSymbol st) (leverage_input st)
        > freeMargin_of availableCapital (positions st) \<longrightarrow>
      positions (handleMarketOrder parseFloat newId now availableCapital sd st) = positions st \<and>
      tradeHistory (handleMarketOrder parseFloat newId now availableCapital sd st)
        = tradeHistory st) \<and>
     (\<not> marginRequired_of (entry_price sd q) (lots_input st) (selectedSymbol st)
          (leverage_input st) > freeMargin_of availableCapital (positions st) \<longrightarrow>
      (\<exists>p. positions (handleMarketOrder parseFloat newId now availableCapital sd st)
              = positions st @ [p] \<and>
            pnl p = 0 \<and> pos_id p = newId \<and> ptype p = sd \<and> symbol p = selectedSymbol st \<and>
            lots p = lots_input st \<and> leverage p = leverage_input st \<and>
            entryPrice p = entry_price sd q) \<and>
      tradeHistory (handleMarketOrder parseFloat newId now availableCapital sd st)
        = tradeHistory st)"
proof (cases "marginRequired_of (entry_price sd q) (lots_input st) (selectedSymbol st)
                (leverage_input st) > freeMargin_of availableCapital (positions st)")
  case True
  then show ?thesis
    by (simp add: handleMarketOrder_unfold [OF assms(1)] showMessage_def)
next
  case False
  have "positions (handleMarketOrder parseFloat newId now availableCapital sd st)
          \<noteq> positions (showMessage NotEnoughFreeMargin False st)"
    using False by (simp add: handleMarketOrder_unfold [OF assms(1)] showMessage_def)
  then have "handleMarketOrder parseFloat newId now availableCapital sd st
          \<noteq> showMessage NotEnoughFreeMargin False st" by auto
  with False show ?thesis
    by (simp add: handleMarketOrder_unfold [OF assms(1)] showMessage_def)
qed

lemma contract_EUR: "contractSize_of ''EUR/USD'' = 100000"
  by (simp add: contractSize_of_def LOT_SIZE_def)

lemma trader0_facts:
  "prices trader0 (selectedSymbol trader0) = Some \<lparr>bid = 108494 / 100000, ask = 108506 / 100000\<rparr>"
  "leverage_input trader0 \<in> set LEVERAGE_OPTIONS"
  "list_all (\<lambda>p. leverage p \<in> set LEVERAGE_OPTIONS) (positions trader0)"
  by (simp_all add: trader0_def quotes0_def LEVERAGE_OPTIONS_def)

lemma trader0_big_facts:
  "prices (trader0\<lparr>positions := [long0], lots_input := 1\<rparr>) (selectedSymbol (trader0\<lparr>positions := [long0], lots_input := 1\<rparr>))
     = Some \<lparr>bid = 108494 / 100000, ask = 108506 / 100000\<rparr>"
  "leverage_input (trader0\<lparr>positions := [long0], lots_input := 1\<rparr>) \<in> set LEVERAGE_OPTIONS"
  "list_all (\<lambda>p. leverage p \<in> set LEVERAGE_OPTIONS) (positions (trader0\<lparr>positions := [long0], lots_input := 1\<rparr>))"
  by (simp_all add: trader0_def quotes0_def LEVERAGE_OPTIONS_def long0_def)

text \<open>C4 on an accepted order (0.01 lots) and on a rejected one (1 lot, one Long open).\<close>

theorem handleMarketOrder_margin_witness:
  "prices trader0 (selectedSymbol trader0) = Some \<lparr>bid = 108494 / 100000, ask = 108506 / 100000\<rparr> \<and>
   leverage_input trader0 \<in> set LEVERAGE_OPTIONS \<and>
   \<not> marginRequired_of (108506 / 100000) (1 / 100) ''EUR/USD'' 1 > freeMargin_of 50000 [] \<and>
   length (positions (handleMarketOrder decimal_literal ''id-1'' ''t0'' 50000 BUY trader0)) = 1 \<and>
   pnl (hd (positions (handleMarketOrder decimal_literal ''id-1'' ''t0'' 50000 BUY trader0))) = 0 \<and>
   entryPrice (hd (positions (handleMarketOrder decimal_literal ''id-1'' ''t0'' 50000 BUY trader0)))
     = 108506 / 100000 \<and>
   marginRequired_of (108506 / 100000) 1 ''EUR/USD'' 1 > freeMargin_of 50000 [long0] \<and>
   handleMarketOrder decimal_literal ''id-2'' ''t0'' 50000 BUY (trader0\<lparr>positions := [long0], lots_input := 1\<rparr>)
     = showMessage NotEnoughFreeMargin False (trader0\<lparr>positions := [long0], lots_input := 1\<rparr>) \<and>
   positions (handleMarketOrder decimal_literal ''id-2'' ''t0'' 50000 BUY (trader0\<lparr>positions := [long0], lots_input := 1\<rparr>))
     = [long0]"
proof -
  have m: "\<not> marginRequired_of (108506 / 100000) (1 / 100) ''EUR/USD'' 1 > freeMargin_of 50000 []"
    "marginRequired_of (108506 / 100000) 1 ''EUR/USD'' 1 > freeMargin_of 50000 [long0]"
    by (simp_all add: marginRequired_of_def freeMargin_of_def marginUsed_of_def contract_EUR
        long0_def)
  have s: "selectedSymbol trader0 = ''EUR/USD''" "lots_input trader0 = 1 / 100"
    "leverage_input trader0 = 1" "positions trader0 = []"
    by (simp_all add: trader0_def)
  from handleMarketOrder_margin [OF trader0_facts, of decimal_literal "''id-1''" "''t0''" 50000 BUY]
    handleMarketOrder_margin [OF trader0_big_facts, of decimal_literal "''id-2''" "''t0''" 50000 BUY]
    m trader0_facts
  show ?thesis
    by (auto simp: s entry_price_def)
qed

lemma close_at_fields:
  "tradeHistory (close_at now pos x rsn st) = newHistoryTrade now pos x rsn # tradeHistory st"
  "positions (close_at now pos x rsn st) = filter (\<lambda>p. pos_id p \<noteq> pos_id pos) (positions st)"
  "reported (close_at now pos x rsn st) = reported st @ [realizedPnl_of pos x]"
  "pricesRef (close_at now pos x rsn st) = pricesRef st"
  "prices (close_at now pos x rsn st) = prices st"
  by (simp_all add: close_at_def showMessage_def Let_def)

lemma handleClosePosition_quote:
  assumes "pricesRef st = Some ps" and "ps (symbol pos) = Some q"
  shows "handleClosePosition now pos closePrice rsn st =
           close_at now pos (exit_price_of closePrice pos q) rsn st"
proof (cases "ptype pos")
  case BUY
  with assms show ?thesis
    by (auto simp: handleClosePosition_def truthy_price_def exit_price_of_def close_price_def
        split: option.splits)
next
  case SELL
  with assms show ?thesis
    by (auto simp: handleClosePosition_def truthy_price_def exit_price_of_def close_price_def
        split: option.splits)
qed

lemma handleClosePosition_explicit:
  assumes "pricesRef st = Some ps" and "x \<noteq> 0"
  shows "handleClosePosition now pos (Some x) rsn st = close_at now pos x rsn st"
  using assms by (auto simp: handleClosePosition_def truthy_price_def split: option.splits)

lemma realizedPnl_sign:
  "realizedPnl_of pos x =
     (x - entryPrice pos) * lots pos * contractSize_of (symbol pos) * side_sign (ptype pos)"
proof (cases "ptype pos")
  case BUY
  then show ?thesis by (simp add: realizedPnl_of_def side_sign_def Let_def)
next
  case SELL
  have "(entryPrice pos - x) * lots pos * contractSize_of (symbol pos)
      = - ((x - entryPrice pos) * lots pos * contractSize_of (symbol pos))"
    by (simp add: left_diff_distrib)
  with SELL show ?thesis by (simp add: realizedPnl_of_def side_sign_def Let_def)
qed

lemma catalog_sizes:
  "map contractSize_of ALL_SYMBOL_NAMES = map catalog_contract_size ALL_SYMBOL_NAMES"
  by (simp add: ALL_SYMBOL_NAMES_def contractSize_of_def catalog_contract_size_def LOT_SIZE_def)

lemma filter_id_remove1:
  assumes "distinct (map pos_id ps)" and "pos \<in> set ps"
  shows "filter (\<lambda>p. pos_id p \<noteq> pos_id pos) ps = remove1 pos ps"
  using assms
proof (induction ps)
  case Nil
  then show ?case by simp
next
  case (Cons p ps)
  show ?case
  proof (cases "p = pos")
    case True
    with Cons.prems(1) have "pos_id pos \<notin> pos_id ` set ps" by simp
    then have "\<forall>r \<in> set ps. pos_id r \<noteq> pos_id pos" by (auto simp: image_iff)
    then have "filter (\<lambda>p. pos_id p \<noteq> pos_id pos) ps = ps" by (simp add: filter_id_conv)
    with True show ?thesis by simp
  next
    case False
    with Cons.prems have m: "pos \<in> set ps" and d: "distinct (map pos_id ps)"
      and "pos_id p \<notin> pos_id ` set ps" by auto
    then have "pos_id p \<noteq> pos_id pos" by auto
    with Cons.IH [OF d m] False show ?thesis by simp
  qed
qed

text \<open>
  Claim C5. Closing an open position for which a quote is loaded: with no explicit price
  the exit price is the bid for a Long and the ask for a Short; exactly one closed trade
  is prepended to the history, carrying the exit price and
  \<open>(exitPrice - entryPrice) * lots * contractSize * sign side\<close>; that amount is reported;
  the position is removed from the open set and nothing else is. On the catalog the
  contract size is 1 for BTC/USD and ETH/USD and 100000 for the others.
\<close>

theorem handleClosePosition_closes:
  assumes "pricesRef st = Some ps" and "ps (symbol pos) = Some q"
    and "pos \<in> set (positions st)" and "distinct (map pos_id (positions st))"
  shows
    "exit_price_of None pos q = close_price (ptype pos) q \<and>
     tradeHistory (handleClosePosition now pos closePrice rsn st)
       = newHistoryTrade now pos (exit_price_of closePrice pos q) rsn # tradeHistory st \<and>
     exitPrice (newHistoryTrade now pos (exit_price_of closePrice pos q) rsn)
       = exit_price_of closePrice pos q \<and>
     pnl (newHistoryTrade now pos (exit_price_of closePrice pos q) rsn)
       = (exit_price_of closePrice pos q - entryPrice pos) * lots pos
           * contractSize_of (symbol pos) * side_sign (ptype pos) \<and>
     map contractSize_of ALL_SYMBOL_NAMES = map catalog_contract_size ALL_SYMBOL_NAMES \<and>
     reported (handleClosePosition now pos closePrice rsn st)
       = reported st @ [pnl (newHistoryTrade now pos (exit_price_of closePrice pos q) rsn)] \<and>
     positions (handleClosePosition now pos closePrice rsn st) = remove1 pos (positions st) \<and>
     pos \<notin> set (positions (handleClosePosition now pos closePrice rsn st))"
proof -
  have h: "handleClosePosition now pos closePrice rsn st =
           close_at now pos (exit_price_of closePrice pos q) rsn st"
    by (rule handleClosePosition_quote [OF assms(1,2)])
  have c1: "exit_price_of None pos q = close_price (ptype pos) q"
    by (simp add: exit_price_of_def)
  have c2: "tradeHistory (handleClosePosition now pos closePrice rsn st)
       = newHistoryTrade now pos (exit_price_of closePrice pos q) rsn # tradeHistory st"
    by (simp only: h close_at_fields)
  have c3: "exitPrice (newHistoryTrade now pos (exit_price_of closePrice pos q) rsn)
       = exit_price_of closePrice pos q"
    by (simp add: newHistoryTrade_def)
  have c4: "pnl (newHistoryTrade now pos (exit_price_of closePrice pos q) rsn)
       = (exit_price_of closePrice pos q - entryPrice pos) * lots pos
           * contractSize_of (symbol pos) * side_sign (ptype pos)"
    by (simp add: newHistoryTrade_def realizedPnl_sign)
  have c6: "reported (handleClosePosition now pos closePrice rsn st)
       = reported st @ [pnl (newHistoryTrade now pos (exit_price_of closePrice pos q) rsn)]"
    by (simp add: h close_at_fields newHistoryTrade_def)
  have c7: "positions (handleClosePosition now pos closePrice rsn st) = remove1 pos (positions st)"
    by (simp only: h close_at_fields filter_id_remove1 [OF assms(4,3)])
  from assms(4) have "distinct (positions st)" by (rule distinct_map [THEN iffD1, THEN conjunct1])
  then have "pos \<notin> set (remove1 pos (positions st))" by simp
  then have c8: "pos \<notin> set (positions (handleClosePosition now pos closePrice rsn st))"
    unfolding c7 .
  from c1 c2 c3 c4 catalog_sizes c6 c7 c8 show ?thesis by (intro conjI)
qed

lemma trader1_facts:
  "pricesRef trader1 = Some quotes0"
  "quotes0 (symbol long0) = Some \<lparr>bid = 108494 / 100000, ask = 108506 / 100000\<rparr>"
  "long0 \<in> set (positions trader1)"
  "distinct (map pos_id (positions trader1))"
  by (simp_all add: trader1_def trader0_def quotes0_def long0_def)

text \<open>C5 on the manual close of a Long of 0.01 lots, entered at 1.08506, at the bid 1.08494.\<close>

theorem handleClosePosition_closes_witness:
  "pricesRef trader1 = Some quotes0 \<and>
   quotes0 (symbol long0) = Some \<lparr>bid = 108494 / 100000, ask = 108506 / 100000\<rparr> \<and>
   long0 \<in> set (positions trader1) \<and>
   distinct (map pos_id (positions trader1)) \<and>
   positions (handleClosePosition ''t1'' long0 None ''Manual Close'' trader1) = [] \<and>
   length (tradeHistory (handleClosePosition ''t1'' long0 None ''Manual Close'' trader1)) = 1 \<and>
   exitPrice (hd (tradeHistory (handleClosePosition ''t1'' long0 None ''Manual Close'' trader1)))
     = 108494 / 100000 \<and>
   pnl (hd (tradeHistory (handleClosePosition ''t1'' long0 None ''Manual Close'' trader1)))
     = - (12 / 100) \<and>
   reported (handleClosePosition ''t1'' long0 None ''Manual Close'' trader1) = [- (12 / 100)]"
proof -
  have f: "positions trader1 = [long0]" "tradeHistory trader1 = []" "reported trader1 = []"
    by (simp_all add: trader1_def trader0_def)
  have l: "ptype long0 = BUY" "entryPrice long0 = 108506 / 100000" "lots long0 = 1 / 100"
    "symbol long0 = ''EUR/USD''"
    by (simp_all add: long0_def)
  let ?q = "\<lparr>bid = 108494 / 100000, ask = 108506 / 100000\<rparr>"
  let ?st = "handleClosePosition ''t1'' long0 None ''Manual Close'' trader1"
  note T = handleClosePosition_closes [OF trader1_facts, where closePrice = None
      and now = "''t1''" and rsn = "''Manual Close''"]
  note c2 = T [THEN conjunct2, THEN conjunct1]
  note c6 = T [THEN conjunct2, THEN conjunct2, THEN conjunct2, THEN conjunct2, THEN conjunct2,
      THEN conjunct1]
  note c7 = T [THEN conjunct2, THEN conjunct2, THEN conjunct2, THEN conjunct2, THEN conjunct2,
      THEN conjunct2, THEN conjunct1]
  show ?thesis
    unfolding c2 c6 c7
    by (simp add: f l trader1_facts exit_price_of_def close_price_def newHistoryTrade_def
        realizedPnl_of_def contract_EUR quotes0_def)
qed

lemma trigger_of_fires:
  "trigger_of symbolName b a pos =
     (if fires symbolName b a pos then Some (tick_price b a pos, tick_reason b a pos) else None)"
proof (cases "ptype pos")
  case BUY
  then show ?thesis
    by (auto simp: trigger_of_def fires_def sl_fires_def tp_fires_def tick_price_def
        tick_reason_def level_set_def Let_def split: option.splits)
next
  case SELL
  then show ?thesis
    by (auto simp: trigger_of_def fires_def sl_fires_def tp_fires_def tick_price_def
        tick_reason_def level_set_def Let_def split: option.splits)
qed

lemma positionsToClose_fires:
  "positionsToClose symbolName b a ps =
     map (\<lambda>p. (p, tick_price b a p, tick_reason b a p)) (filter (fires symbolName b a) ps)"
  by (induction ps) (simp_all add: positionsToClose_def trigger_of_fires)

lemma updated_fires:
  "filter (\<lambda>pos. trigger_of symbolName b a pos = None) ps
     = filter (\<lambda>p. \<not> fires symbolName b a p) ps"
  by (simp add: trigger_of_fires)

lemma close_all_fields:
  assumes "pricesRef st = Some ps" and "list_all (\<lambda>(p, x, r). x \<noteq> 0) cs"
  shows "tradeHistory (close_all now cs st)
           = rev (map (\<lambda>(p, x, r). newHistoryTrade now p x r) cs) @ tradeHistory st \<and>
         reported (close_all now cs st)
           = reported st @ map (\<lambda>(p, x, r). realizedPnl_of p x) cs \<and>
         positions (close_all now cs st)
           = filter (\<lambda>p. pos_id p \<notin> set (map (\<lambda>(q, x, r). pos_id q) cs)) (positions st)"
  using assms
proof (induction cs arbitrary: st)
  case Nil
  then show ?case by simp
next
  case (Cons c cs)
  obtain p x r where c: "c = (p, x, r)" by (cases c)
  from Cons.prems(2) c have x: "x \<noteq> 0" and rest: "list_all (\<lambda>(p, x, r). x \<noteq> 0) cs" by simp_all
  have h: "handleClosePosition now p (Some x) r st = close_at now p x r st"
    by (rule handleClosePosition_explicit [OF Cons.prems(1) x])
  have "pricesRef (close_at now p x r st) = Some ps"
    by (simp add: close_at_fields Cons.prems(1))
  from Cons.IH [OF this rest] show ?case
    by (simp add: c h close_at_fields filter_filter conj_commute)
qed

lemma tick_price_nonzero:
  "b \<noteq> 0 \<Longrightarrow> a \<noteq> 0 \<Longrightarrow> tick_price b a p \<noteq> 0"
  by (cases "ptype p") (simp_all add: tick_price_def)

lemma kept_ids:
  assumes "distinct (map pos_id ps)"
  shows "filter (\<lambda>p. pos_id p \<notin> pos_id ` set (filter f ps)) (filter (\<lambda>p. \<not> f p) ps)
           = filter (\<lambda>p. \<not> f p) ps"
proof -
  have "\<And>p q. p \<in> set ps \<Longrightarrow> q \<in> set ps \<Longrightarrow> pos_id p = pos_id q \<Longrightarrow> p = q"
    using assms by (meson distinct_map inj_onD)
  then have "\<forall>p \<in> set (filter (\<lambda>p. \<not> f p) ps). pos_id p \<notin> pos_id ` set (filter f ps)"
    by auto
  then show ?thesis by (simp only: filter_id_conv [THEN iffD2])
qed

text \<open>
  Claim C6, as amended. On a tick \<open>(bid, ask)\<close> for an instrument, with prices loaded and
  the ids of the open positions distinct: the positions that stay open are exactly those
  that do not fire, in their order; every position that fires is closed once, at the bid
  for a Long and at the ask for a Short, with the stop-loss reason when its stop-loss
  fires and the take-profit reason otherwise. A position fires when it is on the
  instrument and its stop-loss or take-profit test holds; a level of 0 is treated as not
  set (the guards of lines 458 and 462), like a missing one.
\<close>

theorem checkPriceTriggers_tick:
  assumes "pricesRef st = Some ps" and "b \<noteq> 0" and "a \<noteq> 0"
    and "distinct (map pos_id (positions st))"
  shows
    "positions (checkPriceTriggers now symbolName b a st)
       = filter (\<lambda>p. \<not> fires symbolName b a p) (positions st) \<and>
     tradeHistory (checkPriceTriggers now symbolName b a st)
       = rev (map (tick_trade now b a) (filter (fires symbolName b a) (positions st)))
           @ tradeHistory st \<and>
     reported (checkPriceTriggers now symbolName b a st)
       = reported st
           @ map (\<lambda>p. realizedPnl_of p (tick_price b a p))
               (filter (fires symbolName b a) (positions st))"
proof -
  let ?cs = "positionsToClose symbolName b a (positions st)"
  let ?st1 = "st\<lparr>positions := filter (\<lambda>p. \<not> fires symbolName b a p) (positions st)\<rparr>"
  have u: "checkPriceTriggers now symbolName b a st = close_all now ?cs ?st1"
    by (simp add: checkPriceTriggers_def Let_def updated_fires)
  have nz: "list_all (\<lambda>(p, x, r). x \<noteq> 0) ?cs"
    by (simp add: positionsToClose_fires list_all_iff tick_price_nonzero [OF assms(2,3)])
  have pr: "pricesRef ?st1 = Some ps" using assms(1) by simp
  have ids: "set (map (\<lambda>(q, x, r). pos_id q) ?cs)
      = pos_id ` set (filter (fires symbolName b a) (positions st))"
    by (simp add: positionsToClose_fires image_image)
  note F = close_all_fields [OF pr nz, of now]
  have 1: "positions (checkPriceTriggers now symbolName b a st)
       = filter (\<lambda>p. \<not> fires symbolName b a p) (positions st)"
    unfolding u F [THEN conjunct2, THEN conjunct2] ids
    using kept_ids [OF assms(4), of "fires symbolName b a"] by simp
  have 2: "tradeHistory (checkPriceTriggers now symbolName b a st)
       = rev (map (tick_trade now b a) (filter (fires symbolName b a) (positions st)))
           @ tradeHistory st"
    unfolding u F [THEN conjunct1]
    by (simp add: positionsToClose_fires comp_def tick_trade_def)
  have 3: "reported (checkPriceTriggers now symbolName b a st)
       = reported st
           @ map (\<lambda>p. realizedPnl_of p (tick_price b a p))
               (filter (fires symbolName b a) (positions st))"
    unfolding u F [THEN conjunct2, THEN conjunct1]
    by (simp add: positionsToClose_fires comp_def)
  from 1 2 3 show ?thesis by (intro conjI)
qed

lemma trader2_facts:
  "pricesRef trader2 = Some quotes0" "(10799 / 10000 :: real) \<noteq> 0" "(108002 / 100000 :: real) \<noteq> 0"
  "distinct (map pos_id (positions trader2))"
  by (simp_all add: trader2_def trader0_def long_sl_def short_tp_def long_both_def)

lemma trader2_fires:
  "filter (fires ''EUR/USD'' (10799 / 10000) (108002 / 100000)) (positions trader2)
     = [long_sl, long_both]"
  "filter (\<lambda>p. \<not> fires ''EUR/USD'' (10799 / 10000) (108002 / 100000) p) (positions trader2)
     = [short_tp]"
  by (simp_all add: trader2_def trader0_def long_sl_def short_tp_def long_both_def fires_def
      sl_fires_def tp_fires_def)

text \<open>
  The amended C6 on a tick at bid 1.0799: a Long with stop-loss 1.0800 closes at the bid, a
  Long with both levels crossed closes once, by its stop-loss, and a Short stays open.
\<close>

theorem checkPriceTriggers_tick_witness:
  "pricesRef trader2 = Some quotes0 \<and>
   distinct (map pos_id (positions trader2)) \<and>
   positions (checkPriceTriggers ''t1'' ''EUR/USD'' (10799 / 10000) (108002 / 100000) trader2)
     = [short_tp] \<and>
   map pos_id
     (tradeHistory (checkPriceTriggers ''t1'' ''EUR/USD'' (10799 / 10000) (108002 / 100000) trader2))
     = [''id-4'', ''id-1''] \<and>
   map reason
     (tradeHistory (checkPriceTriggers ''t1'' ''EUR/USD'' (10799 / 10000) (108002 / 100000) trader2))
     = [''Stop Loss Hit'', ''Stop Loss Hit''] \<and>
   map exitPrice
     (tradeHistory (checkPriceTriggers ''t1'' ''EUR/USD'' (10799 / 10000) (108002 / 100000) trader2))
     = [10799 / 10000, 10799 / 10000]"
proof -
  note T = checkPriceTriggers_tick [OF trader2_facts, of "''t1''" "''EUR/USD''"]
  have h: "tradeHistory trader2 = []" by (simp add: trader2_def trader0_def)
  show ?thesis
    unfolding T [THEN conjunct1] T [THEN conjunct2, THEN conjunct1] trader2_fires
    by (simp add: trader2_facts h tick_trade_def newHistoryTrade_def tick_price_def
        tick_reason_def sl_fires_def long_sl_def long_both_def)
qed

text \<open>
  Claim C6 as stated fails for a level of 0. A Short opened with 0 in the stop-loss field
  carries the stop-loss 0; every ask is at or above it, so the stated test holds, yet the
  tick closes nothing.
\<close>

theorem checkPriceTriggers_zero_level_counterexample:
  "positions (handleMarketOrder decimal_literal ''id-3'' ''t0'' 50000 SELL
                (trader0\<lparr>stopLoss_input := ''0''\<rparr>)) = [short_zero] \<and>
   ptype short_zero = SELL \<and> stopLoss short_zero = Some 0 \<and>
   sl_stated (108494 / 100000) (108506 / 100000) short_zero \<and>
   positions (checkPriceTriggers ''t1'' ''EUR/USD'' (108494 / 100000) (108506 / 100000) trader3)
     = [short_zero] \<and>
   tradeHistory (checkPriceTriggers ''t1'' ''EUR/USD'' (108494 / 100000) (108506 / 100000) trader3)
     = []"
proof -
  have d: "decimal_literal ''0'' = Some 0"
    by (simp add: decimal_literal_def digit_value_def)
  have o: "positions (handleMarketOrder decimal_literal ''id-3'' ''t0'' 50000 SELL
                (trader0\<lparr>stopLoss_input := ''0''\<rparr>)) = [short_zero]"
    by (simp add: handleMarketOrder_def trader0_def quotes0_def short_zero_def Let_def d
        contract_EUR showMessage_def)
  have t: "\<And>b a. trigger_of ''EUR/USD'' b a short_zero = None"
    by (simp add: trigger_of_def short_zero_def level_set_def)
  have c: "checkPriceTriggers ''t1'' ''EUR/USD'' (108494 / 100000) (108506 / 100000) trader3
      = trader3"
    by (simp add: checkPriceTriggers_def positionsToClose_def trader3_def t Let_def)
  show ?thesis
    unfolding c using o
    by (simp add: trader3_def trader0_def short_zero_def sl_stated_def)
qed

section \<open>Properties of recalculatePlan on the store\<close>

lemma read_days_cong:
  "\<forall>r \<in> set rs. objs h' r = objs h r \<Longrightarrow> read_days h' rs = read_days h rs"
  by (induction rs) (simp_all split: option.splits)

lemma stringify_cong:
  "\<forall>r \<in> set (all_refs os). objs h' r = objs h r \<Longrightarrow> stringify h' os = stringify h os"
proof (induction os)
  case Nil
  show ?case by simp
next
  case (Cons m os)
  have "read_days h' (day_refs m) = read_days h (day_refs m)"
    by (rule read_days_cong) (use Cons.prems in \<open>simp add: all_refs_def\<close>)
  moreover have "stringify h' os = stringify h os"
    by (rule Cons.IH) (use Cons.prems in \<open>simp add: all_refs_def\<close>)
  ultimately show ?case by (simp split: option.splits)
qed

lemma read_days_dom: "read_days h rs = Some ds \<Longrightarrow> set rs \<subseteq> dom (objs h)"
  by (induction rs arbitrary: ds) (auto split: option.splits)

lemma stringify_dom: "stringify h os = Some ms \<Longrightarrow> set (all_refs os) \<subseteq> dom (objs h)"
proof (induction os arbitrary: ms)
  case Nil
  show ?case by (simp add: all_refs_def)
next
  case (Cons m os)
  from Cons.prems obtain ds vs where 1: "read_days h (day_refs m) = Some ds"
    and 2: "stringify h os = Some vs"
    by (auto split: option.splits)
  from read_days_dom [OF 1] Cons.IH [OF 2] show ?case by (simp add: all_refs_def)
qed

lemma alloc_days_props:
  "alloc_days h ds = (h', rs) \<Longrightarrow>
     rs = [next_ref h ..< next_ref h + length ds] \<and>
     next_ref h' = next_ref h + length ds \<and>
     (\<forall>r. r < next_ref h \<longrightarrow> objs h' r = objs h r) \<and>
     read_days h' rs = Some ds \<and>
     dom (objs h') = dom (objs h) \<union> set rs"
proof (induction ds arbitrary: h h' rs)
  case Nil
  then show ?case by simp
next
  case (Cons d ds)
  let ?h1 = "h\<lparr>objs := (objs h)(next_ref h \<mapsto> d), next_ref := Suc (next_ref h)\<rparr>"
  from Cons.prems obtain rs0 where a: "alloc_days ?h1 ds = (h', rs0)" and r: "rs = next_ref h # rs0"
    by (auto simp: Let_def split: prod.splits)
  note IH = Cons.IH [OF a]
  have n1: "next_ref ?h1 = Suc (next_ref h)" by simp
  have o1: "objs ?h1 = (objs h)(next_ref h \<mapsto> d)" by simp
  have 1: "rs0 = [Suc (next_ref h) ..< Suc (next_ref h) + length ds]"
    using IH [THEN conjunct1] unfolding n1 .
  have 2: "next_ref h' = Suc (next_ref h) + length ds"
    using IH [THEN conjunct2, THEN conjunct1] unfolding n1 .
  have 3: "objs h' q = ((objs h)(next_ref h \<mapsto> d)) q" if "q < Suc (next_ref h)" for q
    using IH [THEN conjunct2, THEN conjunct2, THEN conjunct1, rule_format, of q] that
    unfolding n1 o1 by simp
  have 4: "read_days h' rs0 = Some ds"
    using IH [THEN conjunct2, THEN conjunct2, THEN conjunct2, THEN conjunct1] .
  have 5: "dom (objs h') = dom ((objs h)(next_ref h \<mapsto> d)) \<union> set rs0"
    using IH [THEN conjunct2, THEN conjunct2, THEN conjunct2, THEN conjunct2] unfolding o1 .
  have c1: "rs = [next_ref h ..< next_ref h + length (d # ds)]"
    unfolding r 1 by (simp add: upt_conv_Cons del: upt_Suc)
  have c2: "next_ref h' = next_ref h + length (d # ds)" using 2 by simp
  have c3: "\<forall>q. q < next_ref h \<longrightarrow> objs h' q = objs h q"
    using 3 by simp
  have "objs h' (next_ref h) = Some d" using 3 [of "next_ref h"] by simp
  then have c4: "read_days h' rs = Some (d # ds)" using 4 unfolding r by simp
  have c5: "dom (objs h') = dom (objs h) \<union> set rs" unfolding 5 r by auto
  from c1 c2 c3 c4 c5 show ?case by (intro conjI)
qed

lemma parse_props:
  "parse h ms = (h', os) \<Longrightarrow>
     all_refs os = [next_ref h ..< next_ref h + length (allDays ms)] \<and>
     next_ref h' = next_ref h + length (allDays ms) \<and>
     (\<forall>r. r < next_ref h \<longrightarrow> objs h' r = objs h r) \<and>
     stringify h' os = Some ms"
proof (induction ms arbitrary: h h' os)
  case Nil
  then show ?case by (simp add: all_refs_def allDays_def)
next
  case (Cons m ms)
  from Cons.prems obtain h1 rs os0 where a: "alloc_days h (days m) = (h1, rs)"
    and p: "parse h1 ms = (h', os0)"
    and o: "os = \<lparr>obj_id = month_id m, obj_monthName = monthName m, day_refs = rs\<rparr> # os0"
    by (auto simp: Let_def split: prod.splits)
  note A = alloc_days_props [OF a]
  note a1 = A [THEN conjunct1]
  note a2 = A [THEN conjunct2, THEN conjunct1]
  note a3 = A [THEN conjunct2, THEN conjunct2, THEN conjunct1, rule_format]
  note a4 = A [THEN conjunct2, THEN conjunct2, THEN conjunct2, THEN conjunct1]
  note IH = Cons.IH [OF p]
  note p1 = IH [THEN conjunct1]
  note p2 = IH [THEN conjunct2, THEN conjunct1]
  note p3 = IH [THEN conjunct2, THEN conjunct2, THEN conjunct1, rule_format]
  note p4 = IH [THEN conjunct2, THEN conjunct2, THEN conjunct2]
  have "all_refs os = rs @ all_refs os0" unfolding o by (simp add: all_refs_def)
  also have "\<dots> = [next_ref h ..< next_ref h + length (days m)]
      @ [next_ref h + length (days m) ..< next_ref h + length (days m) + length (allDays ms)]"
    using a1 p1 unfolding a2 by simp
  also have "\<dots> = [next_ref h ..< next_ref h + length (days m) + length (allDays ms)]"
    by (simp add: upt_add_eq_append [symmetric])
  finally have c1: "all_refs os = [next_ref h ..< next_ref h + length (allDays (m # ms))]"
    by (simp add: allDays_def add.assoc)
  have c2: "next_ref h' = next_ref h + length (allDays (m # ms))"
    using p2 a2 by (simp add: allDays_def)
  have c3: "\<forall>q. q < next_ref h \<longrightarrow> objs h' q = objs h q"
    using a3 p3 a2 by simp
  have "read_days h' rs = read_days h1 rs"
    by (rule read_days_cong) (use a1 a2 p3 in auto)
  with a4 have "read_days h' rs = Some (days m)" by simp
  with p4 o have c4: "stringify h' os = Some (m # ms)" by simp
  from c1 c2 c3 c4 show ?case by (intro conjI)
qed

lemma walk_refs_append:
  "walk_refs toNumber h s (xs @ ys) =
     (case walk_refs toNumber h s xs of
        Inl e \<Rightarrow> Inl e
      | Inr (h1, s1) \<Rightarrow> walk_refs toNumber h1 s1 ys)"
  by (induction xs arbitrary: h s) (auto split: option.splits sum.splits prod.splits)

lemma walk_refs_days:
  "distinct rs \<Longrightarrow> read_days h rs = Some ds \<Longrightarrow> walk_days toNumber s ds = Inr (ds', s') \<Longrightarrow>
   \<exists>h'. walk_refs toNumber h s rs = Inr (h', s') \<and> read_days h' rs = Some ds' \<and>
        (\<forall>r. r \<notin> set rs \<longrightarrow> objs h' r = objs h r)"
proof (induction rs arbitrary: h s ds ds')
  case Nil
  then show ?case by auto
next
  case (Cons r rs)
  from Cons.prems(2) obtain d ds0 where d: "objs h r = Some d"
    and r0: "read_days h rs = Some ds0" and ds: "ds = d # ds0"
    by (auto split: option.splits)
  from Cons.prems(3) ds obtain d1 s1 ds1 where
    1: "day_step toNumber s d = Inr (d1, s1)" and
    2: "walk_days toNumber s1 ds0 = Inr (ds1, s')" and 3: "ds' = d1 # ds1"
    by (auto split: sum.splits prod.splits)
  let ?h1 = "h\<lparr>objs := (objs h)(r \<mapsto> d1)\<rparr>"
  from Cons.prems(1) have nr: "r \<notin> set rs" and dr: "distinct rs" by simp_all
  have "read_days ?h1 rs = read_days h rs"
    by (rule read_days_cong) (use nr in auto)
  with r0 have r1: "read_days ?h1 rs = Some ds0" by simp
  from Cons.IH [OF dr r1 2] obtain h' where
    w: "walk_refs toNumber ?h1 s1 rs = Inr (h', s')" and
    rd: "read_days h' rs = Some ds1" and
    un: "\<And>q. q \<notin> set rs \<Longrightarrow> objs h' q = objs ?h1 q"
    by blast
  have c1: "walk_refs toNumber h s (r # rs) = Inr (h', s')" using d 1 w by simp
  have "objs h' r = Some d1" using un [OF nr] by simp
  then have c2: "read_days h' (r # rs) = Some ds'" using rd 3 by simp
  have c3: "\<forall>q. q \<notin> set (r # rs) \<longrightarrow> objs h' q = objs h q" using un by simp
  from c1 c2 c3 show ?case by blast
qed

lemma walk_refs_months:
  "distinct (all_refs os) \<Longrightarrow> stringify h os = Some ms \<Longrightarrow>
   walk_months toNumber s ms = Inr (ms', s') \<Longrightarrow>
   \<exists>h'. walk_refs toNumber h s (all_refs os) = Inr (h', s') \<and> stringify h' os = Some ms' \<and>
        (\<forall>r. r \<notin> set (all_refs os) \<longrightarrow> objs h' r = objs h r)"
proof (induction os arbitrary: h s ms ms')
  case Nil
  then show ?case by (auto simp: all_refs_def)
next
  case (Cons m os)
  from Cons.prems(2) obtain ds vs where rd: "read_days h (day_refs m) = Some ds"
    and st: "stringify h os = Some vs"
    and ms: "ms = \<lparr>month_id = obj_id m, monthName = obj_monthName m, days = ds\<rparr> # vs"
    by (auto split: option.splits)
  from Cons.prems(3) ms obtain ds1 s1 ms1 where
    1: "walk_days toNumber s ds = Inr (ds1, s1)" and
    2: "walk_months toNumber s1 vs = Inr (ms1, s')" and
    3: "ms' = \<lparr>month_id = obj_id m, monthName = obj_monthName m, days = ds1\<rparr> # ms1"
    by (auto split: sum.splits prod.splits)
  from Cons.prems(1) have dm: "distinct (day_refs m)" and dos: "distinct (all_refs os)"
    and dj: "set (day_refs m) \<inter> set (all_refs os) = {}"
    by (simp_all add: all_refs_def)
  from walk_refs_days [OF dm rd 1] obtain h1 where
    w1: "walk_refs toNumber h s (day_refs m) = Inr (h1, s1)" and
    r1: "read_days h1 (day_refs m) = Some ds1" and
    u1: "\<And>q. q \<notin> set (day_refs m) \<Longrightarrow> objs h1 q = objs h q"
    by blast
  have "stringify h1 os = stringify h os"
    by (rule stringify_cong) (use dj u1 in auto)
  with st have st1: "stringify h1 os = Some vs" by simp
  from Cons.IH [OF dos st1 2] obtain h' where
    w2: "walk_refs toNumber h1 s1 (all_refs os) = Inr (h', s')" and
    s2: "stringify h' os = Some ms1" and
    u2: "\<And>q. q \<notin> set (all_refs os) \<Longrightarrow> objs h' q = objs h1 q"
    by blast
  have c1: "walk_refs toNumber h s (all_refs (m # os)) = Inr (h', s')"
    using w1 w2 by (simp add: all_refs_def walk_refs_append)
  have "read_days h' (day_refs m) = read_days h1 (day_refs m)"
    by (rule read_days_cong) (use dj u2 in auto)
  with r1 s2 3 have c2: "stringify h' (m # os) = Some ms'" by simp
  have c3: "\<forall>q. q \<notin> set (all_refs (m # os)) \<longrightarrow> objs h' q = objs h q"
    using u1 u2 by (simp add: all_refs_def)
  from c1 c2 c3 show ?case by blast
qed

lemma recalculatePlan_months:
  "\<exists>ms s'. walk_months toNumber (initial_state P) (months P) = Inr (ms, s') \<and>
     recalculatePlan toNumber P = Inr ms"
proof -
  from walk_months_inv [OF initial_state_inv] obtain ms s'
    where 1: "walk_months toNumber (initial_state P) (months P) = Inr (ms, s')" by blast
  then have "recalculatePlan toNumber P = Inr ms"
    by (simp add: recalculatePlan_def recalculate_body_def Let_def initial_state_def)
  with 1 show ?thesis by blast
qed

text \<open>
  Claim C10. On a store whose objects lie below the allocation pointer, and for a document
  whose days are all in the store: the call returns; every object of the store before the
  call is unchanged after it, so the document reads as before; the days of the returned
  months are distinct references, none of them a reference of the store before the call;
  and the returned months, read in the new store, are the months that \<open>recalculatePlan\<close>
  computes on the value of the document.
\<close>

theorem recalculatePlan_heap_no_mutation:
  assumes "heap_ok h" and "document_value h D = Some P"
  shows "\<exists>h' newMonths ms.
           recalculatePlan_heap toNumber h D = Inr (h', newMonths) \<and>
           objs h' |` dom (objs h) = objs h \<and>
           document_value h' D = Some P \<and>
           set (all_refs newMonths) \<inter> dom (objs h) = {} \<and>
           distinct (all_refs newMonths) \<and>
           recalculatePlan toNumber P = Inr ms \<and>
           stringify h' newMonths = Some ms"
proof -
  obtain h1 os where p: "parse h (months P) = (h1, os)" by (cases "parse h (months P)")
  from parse_props [OF p] have
    p1: "all_refs os = [next_ref h ..< next_ref h + length (allDays (months P))]" and
    p3: "\<And>r. r < next_ref h \<Longrightarrow> objs h1 r = objs h r" and
    p4: "stringify h1 os = Some (months P)"
    by simp_all
  from p1 have dist: "distinct (all_refs os)" by simp
  from recalculatePlan_months obtain ms s' where
    wm: "walk_months toNumber (initial_state P) (months P) = Inr (ms, s')" and
    rp: "recalculatePlan toNumber P = Inr ms"
    by blast
  from walk_refs_months [OF dist p4 wm] obtain h2 where
    w: "walk_refs toNumber h1 (initial_state P) (all_refs os) = Inr (h2, s')" and
    s2: "stringify h2 os = Some ms" and
    u: "\<And>q. q \<notin> set (all_refs os) \<Longrightarrow> objs h2 q = objs h1 q"
    by blast
  have c1: "recalculatePlan_heap toNumber h D = Inr (h2, os)"
    using assms(2) p w by (simp add: recalculatePlan_heap_def all_refs_def)
  have old: "\<And>r. r \<in> dom (objs h) \<Longrightarrow> r < next_ref h"
    using assms(1) by (auto simp: heap_ok_def)
  have keep: "\<And>r. r \<in> dom (objs h) \<Longrightarrow> objs h2 r = objs h r"
  proof -
    fix r assume "r \<in> dom (objs h)"
    then have lt: "r < next_ref h" by (rule old)
    then have "r \<notin> set (all_refs os)" by (simp add: p1)
    then show "objs h2 r = objs h r" using u p3 [OF lt] by simp
  qed
  have c2: "objs h2 |` dom (objs h) = objs h"
  proof
    fix r show "(objs h2 |` dom (objs h)) r = objs h r"
    proof (cases "objs h r")
      case None
      then show ?thesis by (simp add: restrict_map_def domIff)
    next
      case (Some d)
      then have "r \<in> dom (objs h)" by (simp add: domIff)
      with keep [OF this] show ?thesis by (simp add: restrict_map_def)
    qed
  qed
  from assms(2) obtain ms0 where s0: "stringify h (ref_months D) = Some ms0"
    by (auto simp: document_value_def split: option.splits)
  have "stringify h2 (ref_months D) = stringify h (ref_months D)"
    by (rule stringify_cong) (use stringify_dom [OF s0] keep in auto)
  then have c3: "document_value h2 D = Some P"
    using assms(2) by (simp add: document_value_def)
  have c4: "set (all_refs os) \<inter> dom (objs h) = {}"
  proof -
    have "q \<notin> dom (objs h)" if q: "q \<in> set (all_refs os)" for q
    proof
      assume "q \<in> dom (objs h)"
      then have "q < next_ref h" by (rule old)
      moreover from q have "next_ref h \<le> q" by (simp add: p1)
      ultimately show False by simp
    qed
    then show ?thesis by auto
  qed
  from c1 c2 c3 c4 dist rp s2 show ?thesis by blast
qed

lemma heap0_facts: "heap_ok heap0" "document_value heap0 doc0 = Some plan_b"
  by (auto simp: heap_ok_def heap0_def doc0_def document_value_def plan_b_def split: if_splits)

text \<open>C10 on a store of two day objects: both are unchanged and neither is returned.\<close>

theorem recalculatePlan_heap_no_mutation_witness:
  "heap_ok heap0 \<and> document_value heap0 doc0 = Some plan_b \<and>
   (\<exists>h' newMonths.
      recalculatePlan_heap decimal_literal heap0 doc0 = Inr (h', newMonths) \<and>
      objs h' 0 = Some (blank_day 1 ''2025-11-17'' True ''+'' ''299.625'') \<and>
      objs h' 1 = Some (blank_day 2 ''2025-11-18'' False ''+'' '''') \<and>
      0 \<notin> set (all_refs newMonths) \<and> 1 \<notin> set (all_refs newMonths) \<and>
      stringify h' (ref_months doc0) = Some (months plan_b))"
proof -
  from recalculatePlan_heap_no_mutation [OF heap0_facts, of decimal_literal]
  obtain h' newMonths where
    1: "recalculatePlan_heap decimal_literal heap0 doc0 = Inr (h', newMonths)" and
    2: "objs h' |` dom (objs heap0) = objs heap0" and
    3: "document_value h' doc0 = Some plan_b" and
    4: "set (all_refs newMonths) \<inter> dom (objs heap0) = {}"
    by blast
  have d: "dom (objs heap0) = {0, 1}" by (auto simp: heap0_def split: if_splits)
  have "(objs h' |` dom (objs heap0)) 0 = objs heap0 0"
    "(objs h' |` dom (objs heap0)) 1 = objs heap0 1"
    by (simp_all only: 2)
  then have a: "objs h' 0 = Some (blank_day 1 ''2025-11-17'' True ''+'' ''299.625'')"
    "objs h' 1 = Some (blank_day 2 ''2025-11-18'' False ''+'' '''')"
    by (simp_all add: d) (simp_all add: heap0_def)
  from 4 have b: "0 \<notin> set (all_refs newMonths)" "1 \<notin> set (all_refs newMonths)"
    unfolding d by auto
  from 3 obtain x where x: "stringify h' (ref_months doc0) = Some x"
    and e: "\<lparr>initialCapital = ref_initialCapital doc0, finalTarget = ref_finalTarget doc0,
             tenure = ref_tenure doc0, months = x, hiddenSymbols = ref_hiddenSymbols doc0,
             version = ref_version doc0\<rparr> = plan_b"
    by (auto simp: document_value_def split: option.splits)
  from arg_cong [OF e, of months] have "x = months plan_b" by simp
  with x have c: "stringify h' (ref_months doc0) = Some (months plan_b)" by simp
  from heap0_facts 1 a b c show ?thesis by blast
qed

end
